theory Spec2Isabelle
  imports Main "HOL-Library.Sublist"
begin

section \<open>Text\<close>

text \<open>
  The edge function works on JavaScript strings. They are modelled as \<^typ>\<open>string\<close>,
  read as UTF-8: a \<^typ>\<open>char\<close> is a byte, an ASCII character is the byte of its code, and
  a character outside ASCII is the sequence of two to four bytes from \<^verbatim>\<open>0x80\<close> on
  that encodes it. No byte of such a sequence is an ASCII character, so a search for
  ASCII text finds in the bytes what it finds in the characters. Letter case is folded
  on the ASCII letters only. That is what the source does where it compares with ASCII
  text: the \<^verbatim>\<open>i\<close> flag of a regular expression (Canonicalize, which upper-cases)
  never maps a character outside ASCII to one inside, and \<^verbatim>\<open>toLowerCase\<close> is used
  by the source only to compare with ASCII text that no character outside ASCII
  lower-cases to. Every fixed pattern and token of the source is ASCII; the one pattern
  built from text, in \<^verbatim>\<open>extractElementOuterHTMLById\<close>, is built by the handler from
  an ASCII id.
\<close>

definition toUpperCase_char :: "char \<Rightarrow> char" where
  "toUpperCase_char c =
     (case map_of (zip ''abcdefghijklmnopqrstuvwxyz'' ''ABCDEFGHIJKLMNOPQRSTUVWXYZ'') c of
        Some d \<Rightarrow> d
      | None \<Rightarrow> c)"

definition toLowerCase_char :: "char \<Rightarrow> char" where
  "toLowerCase_char c =
     (case map_of (zip ''ABCDEFGHIJKLMNOPQRSTUVWXYZ'' ''abcdefghijklmnopqrstuvwxyz'') c of
        Some d \<Rightarrow> d
      | None \<Rightarrow> c)"

definition toLowerCase :: "string \<Rightarrow> string" where
  "toLowerCase s = map toLowerCase_char s"

text \<open>
  The white space of \<^verbatim>\<open>\s\<close> and of \<^verbatim>\<open>trim\<close> (WhiteSpace and LineTerminator
  of ECMAScript): the characters U+0009 to U+000D, U+0020, U+00A0, U+1680, U+2000 to
  U+200A, U+2028, U+2029, U+202F, U+205F, U+3000 and U+FEFF, each as its bytes.
\<close>

definition white_space :: "string list" where
  "white_space =
     [[CHR 0x09], [CHR 0x0A], [CHR 0x0B], [CHR 0x0C], [CHR 0x0D], [CHR 0x20],
      [CHR 0xC2, CHR 0xA0],
      [CHR 0xE1, CHR 0x9A, CHR 0x80],
      [CHR 0xE2, CHR 0x80, CHR 0x80], [CHR 0xE2, CHR 0x80, CHR 0x81],
      [CHR 0xE2, CHR 0x80, CHR 0x82], [CHR 0xE2, CHR 0x80, CHR 0x83],
      [CHR 0xE2, CHR 0x80, CHR 0x84], [CHR 0xE2, CHR 0x80, CHR 0x85],
      [CHR 0xE2, CHR 0x80, CHR 0x86], [CHR 0xE2, CHR 0x80, CHR 0x87],
      [CHR 0xE2, CHR 0x80, CHR 0x88], [CHR 0xE2, CHR 0x80, CHR 0x89],
      [CHR 0xE2, CHR 0x80, CHR 0x8A],
      [CHR 0xE2, CHR 0x80, CHR 0xA8], [CHR 0xE2, CHR 0x80, CHR 0xA9],
      [CHR 0xE2, CHR 0x80, CHR 0xAF],
      [CHR 0xE2, CHR 0x81, CHR 0x9F],
      [CHR 0xE3, CHR 0x80, CHR 0x80],
      [CHR 0xEF, CHR 0xBB, CHR 0xBF]]"

text \<open>\<^verbatim>\<open>s.trim()\<close>: the white space at the start and at the end of the text is taken off.\<close>

function trimStart :: "string \<Rightarrow> string" where
  "trimStart s =
     (case find (\<lambda>w. prefix w s) white_space of
        None \<Rightarrow> s
      | Some w \<Rightarrow>
          if length (drop (length w) s) < length s then trimStart (drop (length w) s) else s)"
  by pat_completeness auto
termination
  by (relation "measure length") auto

function trimEnd :: "string \<Rightarrow> string" where
  "trimEnd s =
     (case find (\<lambda>w. suffix w s) white_space of
        None \<Rightarrow> s
      | Some w \<Rightarrow>
          if length (take (length s - length w) s) < length s
          then trimEnd (take (length s - length w) s) else s)"
  by pat_completeness auto
termination
  by (relation "measure length") auto

declare trimStart.simps [simp del] trimEnd.simps [simp del]

definition trim :: "string \<Rightarrow> string" where
  "trim s = trimEnd (trimStart s)"

text \<open>\<^verbatim>\<open>s.includes(t)\<close> and \<^verbatim>\<open>s.endsWith(t)\<close>.\<close>

fun str_includes :: "string \<Rightarrow> string \<Rightarrow> bool" where
  "str_includes [] t = (t = [])"
| "str_includes (c # cs) t = (prefix t (c # cs) \<or> str_includes cs t)"

definition endsWith :: "string \<Rightarrow> string \<Rightarrow> bool" where
  "endsWith s t = prefix (rev t) (rev s)"

text \<open>
  \<^verbatim>\<open>a || b\<close> where \<^verbatim>\<open>a\<close> is a string or null: null and the empty string are
  falsy.
\<close>

definition truthy :: "string option \<Rightarrow> bool" where
  "truthy a = (case a of None \<Rightarrow> False | Some v \<Rightarrow> v \<noteq> [])"

definition or_else :: "string option \<Rightarrow> string \<Rightarrow> string" where
  "or_else a b = (case a of None \<Rightarrow> b | Some v \<Rightarrow> if v = [] then b else v)"

section \<open>Regular expressions\<close>

text \<open>
  The constructs the patterns of the source use, with the backtracking semantics of
  ECMAScript: \<open>re_matches\<close> lists, in the order a backtracking matcher tries them,
  the states a pattern can end in when started at a state; a state is the text still
  to read and the captures made so far. A greedy quantifier lists the longer
  alternatives first, a lazy one the shorter ones first, and an iteration of a
  quantifier that reads nothing is given up, as RepeatMatcher does. \<open>Cls neg P\<close> is a
  character class with members \<open>P\<close>, negated when \<open>neg\<close>; it reads one
  \<^typ>\<open>char\<close>. \<open>OneOf ws\<close> is a class of characters given by their byte sequences,
  of which it reads one: the class \<^verbatim>\<open>\s\<close>, whose members outside ASCII take several
  bytes each and have no other letter case. The first argument of the matcher is the
  \<^verbatim>\<open>i\<close> flag.
\<close>

datatype regex =
    Eps
  | Chr char
  | Cls bool "char \<Rightarrow> bool"
  | OneOf "string list"
  | Cat regex regex
  | Opt regex
  | Star regex
  | LazyStar regex
  | Group nat regex
  | Backref nat

type_synonym captures = "nat \<Rightarrow> string option"

type_synonym mstate = "string \<times> captures"

definition canonicalize :: "bool \<Rightarrow> char \<Rightarrow> char" where
  "canonicalize ic c = (if ic then toUpperCase_char c else c)"

definition cls_found :: "bool \<Rightarrow> (char \<Rightarrow> bool) \<Rightarrow> char \<Rightarrow> bool" where
  "cls_found ic P c = (if ic then P (toUpperCase_char c) \<or> P (toLowerCase_char c) else P c)"

function re_matches :: "bool \<Rightarrow> regex \<Rightarrow> mstate \<Rightarrow> mstate list" where
  "re_matches ic Eps x = [x]"
| "re_matches ic (Chr c) (s, k) =
     (case s of
        [] \<Rightarrow> []
      | d # s' \<Rightarrow> if canonicalize ic d = canonicalize ic c then [(s', k)] else [])"
| "re_matches ic (Cls neg P) (s, k) =
     (case s of
        [] \<Rightarrow> []
      | d # s' \<Rightarrow> if cls_found ic P d \<noteq> neg then [(s', k)] else [])"
| "re_matches ic (OneOf ws) (s, k) =
     map (\<lambda>w. (drop (length w) s, k)) (filter (\<lambda>w. prefix w s) ws)"
| "re_matches ic (Cat a b) x = concat (map (re_matches ic b) (re_matches ic a x))"
| "re_matches ic (Opt a) x = re_matches ic a x @ [x]"
| "re_matches ic (Star a) (s, k) =
     concat (map (\<lambda>y. if length (fst y) < length s then re_matches ic (Star a) y else [])
                 (re_matches ic a (s, k))) @ [(s, k)]"
| "re_matches ic (LazyStar a) (s, k) =
     (s, k) #
     concat (map (\<lambda>y. if length (fst y) < length s then re_matches ic (LazyStar a) y else [])
                 (re_matches ic a (s, k)))"
| "re_matches ic (Group n a) (s, k) =
     map (\<lambda>y. (fst y, (snd y)(n \<mapsto> take (length s - length (fst y)) s)))
         (re_matches ic a (s, k))"
| "re_matches ic (Backref n) (s, k) =
     (case k n of
        None \<Rightarrow> [(s, k)]
      | Some t \<Rightarrow>
          if length t \<le> length s \<and>
             map (canonicalize ic) (take (length t) s) = map (canonicalize ic) t
          then [(drop (length t) s, k)]
          else [])"
  by pat_completeness auto
termination
  by (relation "measures [\<lambda>p. size (fst (snd p)), \<lambda>p. length (fst (snd (snd p)))]") auto

text \<open>A run of pattern characters, and \<^verbatim>\<open>r+\<close>.\<close>

fun lits :: "string \<Rightarrow> regex" where
  "lits [] = Eps"
| "lits (c # cs) = Cat (Chr c) (lits cs)"

definition Plus :: "regex \<Rightarrow> regex" where
  "Plus r = Cat r (Star r)"

text \<open>
  A match attempt at the start of \<open>s\<close>: the first state the matcher reaches, as the
  matched text, the text after it and the captures.
\<close>

definition re_exec_at :: "bool \<Rightarrow> regex \<Rightarrow> string \<Rightarrow> (string \<times> string \<times> captures) option" where
  "re_exec_at ic re s =
     (case re_matches ic re (s, Map.empty) of
        [] \<Rightarrow> None
      | y # _ \<Rightarrow> Some (take (length s - length (fst y)) s, fst y, snd y))"

text \<open>
  \<^verbatim>\<open>RegExp.prototype.exec\<close> without the \<^verbatim>\<open>g\<close> flag: the attempt is made at every
  index from the left, the last one at the end of the text. The result is the text
  before the match, the match, the text after it and the captures.
\<close>

fun re_search :: "bool \<Rightarrow> regex \<Rightarrow> string \<Rightarrow> string \<Rightarrow> (string \<times> string \<times> string \<times> captures) option" where
  "re_search ic re pre [] =
     (case re_exec_at ic re [] of
        Some (m, rest, k) \<Rightarrow> Some (pre, m, rest, k)
      | None \<Rightarrow> None)"
| "re_search ic re pre (c # cs) =
     (case re_exec_at ic re (c # cs) of
        Some (m, rest, k) \<Rightarrow> Some (pre, m, rest, k)
      | None \<Rightarrow> re_search ic re (pre @ [c]) cs)"

definition re_test :: "bool \<Rightarrow> regex \<Rightarrow> string \<Rightarrow> bool" where
  "re_test ic re s = (re_search ic re [] s \<noteq> None)"

text \<open>
  GetSubstitution for a pattern without capture groups: in the replacement text
  \<^verbatim>\<open>$$\<close> stands for a dollar sign, \<^verbatim>\<open>$&\<close> for the match, a dollar sign and a
  backquote for the text before the match, a dollar sign and a quote for the text
  after it; every other character, a dollar sign before anything else included
  (with no groups \<^verbatim>\<open>$1\<close> and \<^verbatim>\<open>$<\<close> mean nothing), stands for itself.
\<close>

fun getSubstitution :: "string \<Rightarrow> string \<Rightarrow> string \<Rightarrow> string \<Rightarrow> string" where
  "getSubstitution m before after [] = []"
| "getSubstitution m before after [c] = [c]"
| "getSubstitution m before after (c # d # t) =
     (if c = CHR ''$'' \<and> d = CHR ''$'' then CHR ''$'' # getSubstitution m before after t
      else if c = CHR ''$'' \<and> d = CHR ''&'' then m @ getSubstitution m before after t
      else if c = CHR ''$'' \<and> d = CHR 0x60 then before @ getSubstitution m before after t
      else if c = CHR ''$'' \<and> d = CHR 0x27 then after @ getSubstitution m before after t
      else c # getSubstitution m before after (d # t))"

text \<open>\<^verbatim>\<open>s.replace(re, template)\<close> for a pattern without the \<^verbatim>\<open>g\<close> flag.\<close>

definition re_replace :: "bool \<Rightarrow> regex \<Rightarrow> string \<Rightarrow> string \<Rightarrow> string" where
  "re_replace ic re template s =
     (case re_search ic re [] s of
        None \<Rightarrow> s
      | Some (pre, m, rest, k) \<Rightarrow> pre @ getSubstitution m pre rest template @ rest)"

text \<open>
  \<^verbatim>\<open>s.replace(re, template)\<close> for a pattern with the \<^verbatim>\<open>g\<close> flag: every match from
  the left is replaced, the search going on after each match (one character further
  after an empty match). \<open>seen\<close> is the text already passed.
\<close>

function re_replace_all :: "bool \<Rightarrow> regex \<Rightarrow> string \<Rightarrow> string \<Rightarrow> string \<Rightarrow> string" where
  "re_replace_all ic re template seen s =
     (case re_search ic re [] s of
        None \<Rightarrow> s
      | Some (pre, m, rest, k) \<Rightarrow>
          pre @ getSubstitution m (seen @ pre) rest template @
          (if m = [] then
             (case rest of
                [] \<Rightarrow> []
              | c # cs \<Rightarrow>
                  if length cs < length s
                  then c # re_replace_all ic re template (seen @ pre @ [c]) cs
                  else c # cs)
           else if length rest < length s
           then re_replace_all ic re template (seen @ pre @ m) rest
           else rest))"
  by pat_completeness auto
termination
  by (relation "measure (\<lambda>p. length (snd (snd (snd (snd p)))))") auto

declare re_replace_all.simps [simp del]

text \<open>
  \<^verbatim>\<open>s.replace(pattern, replacement)\<close> for a string pattern: the first occurrence
  of the pattern is replaced.
\<close>

fun str_replace_from :: "string \<Rightarrow> string \<Rightarrow> string \<Rightarrow> string \<Rightarrow> string" where
  "str_replace_from pat rep pre [] =
     (if pat = [] then pre @ getSubstitution pat pre [] rep else pre)"
| "str_replace_from pat rep pre (c # cs) =
     (if prefix pat (c # cs)
      then pre @ getSubstitution pat pre (drop (length pat) (c # cs)) rep @
           drop (length pat) (c # cs)
      else str_replace_from pat rep (pre @ [c]) cs)"

definition str_replace :: "string \<Rightarrow> string \<Rightarrow> string \<Rightarrow> string" where
  "str_replace s pat rep = str_replace_from pat rep [] s"

section \<open>HTTP messages and the platform\<close>

text \<open>
  A \<^verbatim>\<open>Headers\<close> object is a list of name and value pairs. Names are compared
  without regard to case; \<^verbatim>\<open>get\<close> joins the values of a name with a comma and a
  space, \<^verbatim>\<open>set\<close> overwrites the first entry of the name and removes the others
  (or appends an entry under the lower-cased name), \<^verbatim>\<open>delete\<close> removes them all.
\<close>

type_synonym headers = "(string \<times> string) list"

definition same_name :: "string \<Rightarrow> string \<Rightarrow> bool" where
  "same_name a b = (toLowerCase a = toLowerCase b)"

fun join_values :: "string list \<Rightarrow> string" where
  "join_values [] = []"
| "join_values [v] = v"
| "join_values (v # w # vs) = v @ '', '' @ join_values (w # vs)"

definition hget :: "headers \<Rightarrow> string \<Rightarrow> string option" where
  "hget h n =
     (case map snd (filter (\<lambda>e. same_name (fst e) n) h) of
        [] \<Rightarrow> None
      | v # vs \<Rightarrow> Some (join_values (v # vs)))"

definition hdelete :: "headers \<Rightarrow> string \<Rightarrow> headers" where
  "hdelete h n = filter (\<lambda>e. \<not> same_name (fst e) n) h"

fun hset :: "headers \<Rightarrow> string \<Rightarrow> string \<Rightarrow> headers" where
  "hset [] n v = [(toLowerCase n, v)]"
| "hset (e # h) n v =
     (if same_name (fst e) n then (fst e, v) # hdelete h n else e # hset h n v)"

text \<open>
  A \<^verbatim>\<open>URL\<close> object, by the components the source reads. The query parameters
  are the platform's parse of the query: \<^verbatim>\<open>searchParams.get\<close> gives the value of
  the first parameter of a name.
\<close>

record url =
  url_href :: string
  url_origin :: string
  url_pathname :: string
  url_search :: string
  url_searchParams :: "(string \<times> string) list"

definition searchParams_get :: "url \<Rightarrow> string \<Rightarrow> string option" where
  "searchParams_get u n = map_of (url_searchParams u) n"

datatype js_error = TypeError | RangeError | SyntaxError | NetworkError string

datatype redirect_mode = Follow | Manual | Reject

text \<open>
  The inbound \<^verbatim>\<open>Request\<close>; its URL is held parsed. \<open>req_body\<close> is the data the
  client sent with it. \<^verbatim>\<open>request.body\<close> is \<^verbatim>\<open>null\<close> or a stream of that data; a
  request with the method \<^verbatim>\<open>GET\<close> or \<^verbatim>\<open>HEAD\<close> has no body.
\<close>

record request =
  req_url :: url
  req_method :: string
  req_headers :: headers
  req_body :: "string option"
  req_redirect :: redirect_mode

definition request_body :: "request \<Rightarrow> string option" where
  "request_body req =
     (if req_method req = ''GET'' \<or> req_method req = ''HEAD'' then None else req_body req)"

text \<open>
  A \<^verbatim>\<open>Response\<close>. Its body is absent, a text, or a stream whose reading fails;
  \<^verbatim>\<open>text()\<close> reads it.
\<close>

datatype body = NullBody | TextBody string | FailingBody js_error

record response =
  resp_status :: nat
  resp_statusText :: string
  resp_headers :: headers
  resp_body :: body

definition resp_ok :: "response \<Rightarrow> bool" where
  "resp_ok r = (200 \<le> resp_status r \<and> resp_status r \<le> 299)"

definition resp_text :: "response \<Rightarrow> js_error + string" where
  "resp_text r =
     (case resp_body r of
        NullBody \<Rightarrow> Inr []
      | TextBody t \<Rightarrow> Inr t
      | FailingBody e \<Rightarrow> Inl e)"

text \<open>The telemetry record of lines 110 to 123.\<close>

record postPayload =
  data_launcher :: string
  data_url :: string
  data_bot_type :: string
  data_client_ip :: string
  data_country :: string
  event_type :: string
  payload_url :: string
  user_id :: string
  campaign_id :: string
  organization_id :: string

text \<open>
  What \<^verbatim>\<open>fetch\<close> is asked to send: nothing, the body stream of the inbound request
  (with the data it holds), or the text of a telemetry record.
\<close>

datatype send_body = NoBody | Stream string | JSON_stringify postPayload

record fetch_request =
  fr_url :: string
  fr_method :: string
  fr_headers :: headers
  fr_body :: send_body
  fr_redirect :: redirect_mode

text \<open>
  The platform and the deployment. \<open>net_fetch\<close> is the network: how the promise of a
  \<^verbatim>\<open>fetch\<close> that was sent settles, given the requests handed over before it and the
  request itself, with a rejection or with a response. \<open>detached_settles\<close> tells
  whether a promise that the handler does not await settles at all while the platform
  keeps the invocation. \<open>new_URL\<close> and \<open>new_URL_base\<close> are the \<^verbatim>\<open>URL\<close>
  constructor with one and with two arguments, which throws on text that is not a URL.
  \<open>response_init_error\<close> is the check the \<^verbatim>\<open>Response\<close> constructor makes of the
  status, the status text and whether a body is given.
\<close>

record env =
  deno_env_ORGANIZATION_ID :: "string option"
  net_fetch :: "fetch_request list \<Rightarrow> fetch_request \<Rightarrow> js_error + response"
  detached_settles :: bool
  new_URL :: "string \<Rightarrow> js_error + url"
  new_URL_base :: "string \<Rightarrow> string \<Rightarrow> js_error + url"
  response_init_error :: "nat \<Rightarrow> string \<Rightarrow> bool \<Rightarrow> js_error option"
  crypto_randomUUID :: string

text \<open>The Netlify context: \<^verbatim>\<open>context.ip\<close> and \<^verbatim>\<open>context.geo?.country?.code\<close>.\<close>

record netlify_context =
  ctx_ip :: "string option"
  ctx_country_code :: "string option"

text \<open>
  The effects of a run: the requests handed to \<^verbatim>\<open>fetch\<close>, in order (also those it
  refuses); the lines the handler writes to the console, in order; whether the body
  stream of the inbound request has been handed to a \<^verbatim>\<open>fetch\<close>; and the lines
  written by the callbacks of promises the handler does not await, which come whenever
  those promises settle and so have no place among the lines of the handler.
\<close>

datatype jsval = Str string | Num nat | Err js_error

datatype log_entry = Console_log "jsval list" | Console_error "jsval list"

record state =
  fetched :: "fetch_request list"
  console :: "log_entry list"
  bodyUsed :: bool
  console_detached :: "log_entry list"

definition console_log :: "jsval list \<Rightarrow> state \<Rightarrow> state" where
  "console_log args st = st\<lparr>console := console st @ [Console_log args]\<rparr>"

definition console_error :: "jsval list \<Rightarrow> state \<Rightarrow> state" where
  "console_error args st = st\<lparr>console := console st @ [Console_error args]\<rparr>"

text \<open>
  An awaited (or returned) \<^verbatim>\<open>fetch\<close>. A body stream can be handed over once: the
  \<^verbatim>\<open>fetch\<close> that gets it locks it, and a later \<^verbatim>\<open>fetch\<close> that is given the same
  stream, or the request that owns it, rejects with a \<^verbatim>\<open>TypeError\<close> and sends
  nothing.
\<close>

definition uses_stream :: "fetch_request \<Rightarrow> bool" where
  "uses_stream r = (case fr_body r of Stream b \<Rightarrow> True | _ \<Rightarrow> False)"

definition fetch :: "env \<Rightarrow> fetch_request \<Rightarrow> state \<Rightarrow> (js_error + response) \<times> state" where
  "fetch e r st =
     (if uses_stream r \<and> bodyUsed st
      then (Inl TypeError, st\<lparr>fetched := fetched st @ [r]\<rparr>)
      else (net_fetch e (fetched st) r,
            st\<lparr>fetched := fetched st @ [r], bodyUsed := (bodyUsed st \<or> uses_stream r)\<rparr>))"

text \<open>
  A \<^verbatim>\<open>fetch\<close> whose promise is left alone, with the callback \<open>on_rejected\<close> given to
  its \<^verbatim>\<open>catch\<close>: the request is handed over, and the callback runs if the promise
  settles with a rejection.
\<close>

definition detached_outcome :: "env \<Rightarrow> fetch_request \<Rightarrow> state \<Rightarrow> (js_error + response) option" where
  "detached_outcome e r st =
     (if detached_settles e then Some (net_fetch e (fetched st) r) else None)"

definition fetch_detached ::
  "env \<Rightarrow> fetch_request \<Rightarrow> (js_error \<Rightarrow> log_entry) \<Rightarrow> state \<Rightarrow> state" where
  "fetch_detached e r on_rejected st =
     (let st1 = st\<lparr>fetched := fetched st @ [r]\<rparr>
      in case detached_outcome e r st of
           Some (Inl err) \<Rightarrow> st1\<lparr>console_detached := console_detached st1 @ [on_rejected err]\<rparr>
         | _ \<Rightarrow> st1)"

text \<open>\<^verbatim>\<open>fetch(request)\<close>: the inbound request, unmodified.\<close>

definition of_request :: "request \<Rightarrow> fetch_request" where
  "of_request req =
     \<lparr>fr_url = url_href (req_url req),
      fr_method = req_method req,
      fr_headers = req_headers req,
      fr_body = (case request_body req of None \<Rightarrow> NoBody | Some b \<Rightarrow> Stream b),
      fr_redirect = req_redirect req\<rparr>"

text \<open>\<^verbatim>\<open>new Response(body, {status, statusText, headers})\<close>.\<close>

definition new_Response :: "env \<Rightarrow> body \<Rightarrow> nat \<Rightarrow> string \<Rightarrow> headers \<Rightarrow> js_error + response" where
  "new_Response e b status statusText hs =
     (case response_init_error e status statusText (b \<noteq> NullBody) of
        Some err \<Rightarrow> Inl err
      | None \<Rightarrow>
          Inr \<lparr>resp_status = status, resp_statusText = statusText,
               resp_headers = hs, resp_body = b\<rparr>)"

section \<open>The edge function\<close>

subsection \<open>Configuration (lines 19 to 39)\<close>

definition arrow :: string where
  "arrow = [CHR 0xE2, CHR 0x86, CHR 0x92]"

definition ORGANIZATION_ID :: "env \<Rightarrow> string" where
  "ORGANIZATION_ID e = or_else (deno_env_ORGANIZATION_ID e) []"

definition ALT_ORIGIN :: "env \<Rightarrow> string" where
  "ALT_ORIGIN e =
     (if ORGANIZATION_ID e \<noteq> []
      then ''https://salespeak-public-serving.s3.amazonaws.com/'' @ ORGANIZATION_ID e
      else [])"

definition EXTERNAL_API_URL :: string where
  "EXTERNAL_API_URL = ''https://22i9zfydr3.execute-api.us-west-2.amazonaws.com/prod/event_stream''"

definition CHATGPT_UA_RE :: regex where
  "CHATGPT_UA_RE = lits ''ChatGPT-User/1.0''"

definition GPTBOT_UA_RE :: regex where
  "GPTBOT_UA_RE = lits ''GPTBot/1.0''"

definition GOOGLE_EXTENDED_RE :: regex where
  "GOOGLE_EXTENDED_RE = lits ''Google-Extended''"

definition BING_PREVIEW_RE :: regex where
  "BING_PREVIEW_RE = lits ''bingpreview''"

definition PERPLEXITY_UA_RE :: regex where
  "PERPLEXITY_UA_RE = lits ''PerplexityBot''"

definition CLAUDE_USER_RE :: regex where
  "CLAUDE_USER_RE = lits ''Claude-User''"

definition CLAUDE_WEB_RE :: regex where
  "CLAUDE_WEB_RE = lits ''Claude-Web''"

definition CLAUDE_BOT_RE :: regex where
  "CLAUDE_BOT_RE = lits ''ClaudeBot''"

definition BYPASS_EDGE_FUNCTION_HEADER :: string where
  "BYPASS_EDGE_FUNCTION_HEADER = ''X-Internal-Fetch''"

subsection \<open>Helper functions (lines 219 to 345)\<close>

fun determineBotType :: "bool \<Rightarrow> bool \<Rightarrow> bool \<Rightarrow> bool \<Rightarrow> bool \<Rightarrow> bool \<Rightarrow> bool \<Rightarrow> bool \<Rightarrow> string" where
  "determineBotType isChatGPT isGPTBot isGoogleExtended isBingPreview isPerplexity
       isClaudeUser isClaudeWeb isClaudeBot =
     (if isChatGPT then ''ChatGPT-User''
      else if isGPTBot then ''GPTBot''
      else if isGoogleExtended then ''Google-Extended''
      else if isBingPreview then ''BingPreview''
      else if isPerplexity then ''PerplexityBot''
      else if isClaudeUser then ''Claude-User''
      else if isClaudeWeb then ''Claude-Web''
      else if isClaudeBot then ''ClaudeBot''
      else ''Unknown'')"

text \<open>
  \<open>fetchWithHost\<close>. Lines 254 to 270 build the headers and the \<^verbatim>\<open>init\<close> of the fetch
  (\<open>fetchWithHost_init\<close>, for the URL \<open>proxied\<close> of line 251); a throw of the
  \<^verbatim>\<open>URL\<close> constructor and a rejection of the fetch both reject the promise the
  function returns.
\<close>

definition fetchWithHost_init :: "string \<Rightarrow> url \<Rightarrow> request \<Rightarrow> bool \<Rightarrow> bool \<Rightarrow> fetch_request" where
  "fetchWithHost_init origin proxied req fixHost bypassEdgeFunction =
     (let headers0 = req_headers req;
          headers1 = (if True \<or> bypassEdgeFunction
                      then hset headers0 BYPASS_EDGE_FUNCTION_HEADER ''true''
                      else headers0);
          headers2 = (if fixHost
                      then hset headers1 ''host'' (str_replace origin ''https://'' [])
                      else headers1)
      in \<lparr>fr_url = url_href proxied,
          fr_method = req_method req,
          fr_headers = headers2,
          fr_body = (if req_method req = ''GET'' \<or> req_method req = ''HEAD''
                     then NoBody
                     else (case request_body req of None \<Rightarrow> NoBody | Some b \<Rightarrow> Stream b)),
          fr_redirect = Manual\<rparr>)"

definition fetchWithHost ::
  "env \<Rightarrow> string \<Rightarrow> url \<Rightarrow> request \<Rightarrow> bool \<Rightarrow> bool \<Rightarrow> bool \<Rightarrow> state \<Rightarrow> (js_error + response) \<times> state" where
  "fetchWithHost e origin originalURL req fixHost logURL bypassEdgeFunction st =
     (case new_URL e (origin @ url_pathname originalURL @ url_search originalURL) of
        Inl err \<Rightarrow> (Inl err, st)
      | Inr proxied \<Rightarrow>
          (let st1 = (if logURL
                      then console_log [Str (''Fetching '' @ arrow), Str (url_href proxied)] st
                      else st)
           in fetch e (fetchWithHost_init origin proxied req fixHost bypassEdgeFunction) st1))"

definition isHTMLResponse :: "response \<Rightarrow> bool" where
  "isHTMLResponse resp =
     (let ct = or_else (hget (resp_headers resp) ''content-type'') []
      in str_includes ct ''text/html'')"

text \<open>\<open>escapeRegExp\<close>: the pattern is a class of fourteen characters, with the \<^verbatim>\<open>g\<close> flag.\<close>

definition regexp_special :: "char \<Rightarrow> bool" where
  "regexp_special c = (c \<in> set (''.*+?^${}()|[]'' @ [CHR 0x5C]))"

definition escapeRegExp :: "string \<Rightarrow> string" where
  "escapeRegExp s = re_replace_all False (Cls False regexp_special) (CHR 0x5C # ''$&'') [] s"

text \<open>
  The pattern of \<open>extractElementOuterHTMLById\<close> is built from text. Its fixed parts are
  given as syntax trees below; the text put in between, the escaped id, is read by
  \<open>pattern_chars\<close> as a run of atoms: a pattern character stands for itself, and so does
  a syntax character after a backslash. Text that is anything else is not covered here
  and is reported as the constructor's error. The class \<^verbatim>\<open>[\s\S]\<close> holds every
  character, so it reads every byte.
\<close>

definition syntax_char :: "char \<Rightarrow> bool" where
  "syntax_char c = (c \<in> set (''^$.*+?()[]{}|'' @ [CHR 0x5C]))"

fun pattern_chars :: "string \<Rightarrow> regex option" where
  "pattern_chars [] = Some Eps"
| "pattern_chars [c] = (if syntax_char c then None else Some (Cat (Chr c) Eps))"
| "pattern_chars (c # d # t) =
     (if c = CHR 0x5C then
        (if syntax_char d then map_option (Cat (Chr d)) (pattern_chars t) else None)
      else if syntax_char c then None
      else map_option (Cat (Chr c)) (pattern_chars (d # t)))"

definition tag_char :: "char \<Rightarrow> bool" where
  "tag_char c =
     (c \<in> set ''abcdefghijklmnopqrstuvwxyzABCDEFGHIJKLMNOPQRSTUVWXYZ0123456789:-'')"

definition element_re :: "regex \<Rightarrow> regex" where
  "element_re idre =
     Cat (Chr CHR ''<'')
    (Cat (Group 1 (Plus (Cls False tag_char)))
    (Cat (Opt (Group 2 (Cat (Star (Cls True (\<lambda>c. c \<in> set ''*>''))) (OneOf white_space))))
    (Cat (lits ''id='')
    (Cat (Group 3 (Cls False (\<lambda>c. c \<in> set [CHR 0x22, CHR 0x27])))
    (Cat idre
    (Cat (Backref 3)
    (Cat (Star (Cls True (\<lambda>c. c = CHR ''>'')))
    (Cat (Chr CHR ''>'')
    (Cat (Group 4 (LazyStar (Cls False (\<lambda>c. True))))
    (Cat (lits ''</'')
    (Cat (Backref 1)
    (Cat (Star (OneOf white_space))
         (Chr CHR ''>'')))))))))))))"

definition extractElementOuterHTMLById :: "string \<Rightarrow> string \<Rightarrow> js_error + string" where
  "extractElementOuterHTMLById html ident =
     (case pattern_chars (escapeRegExp ident) of
        None \<Rightarrow> Inl SyntaxError
      | Some idre \<Rightarrow>
          (case re_search True (element_re idre) [] html of
             Some (pre, m, rest, k) \<Rightarrow> Inr m
           | None \<Rightarrow> Inr []))"

definition bodyCloseRegex :: regex where
  "bodyCloseRegex = lits ''</body>''"

definition injectHTML :: "string \<Rightarrow> string \<Rightarrow> string" where
  "injectHTML originalHTML injectedHTML =
     (if re_test True bodyCloseRegex originalHTML
      then re_replace True bodyCloseRegex (injectedHTML @ ''</body>'') originalHTML
      else originalHTML @ injectedHTML)"

definition finalizeResponse :: "env \<Rightarrow> response \<Rightarrow> bool \<Rightarrow> bool \<Rightarrow> js_error + response" where
  "finalizeResponse e resp varyUA aiVariant =
     (let newHeaders0 = hdelete (resp_headers resp) ''content-length'';
          newHeaders1 =
            (if varyUA
             then (let prev = hget newHeaders0 ''Vary''
                   in hset newHeaders0 ''Vary''
                        (case prev of
                           None \<Rightarrow> ''User-Agent''
                         | Some p \<Rightarrow> if p = [] then ''User-Agent'' else p @ '', User-Agent''))
             else newHeaders0);
          newHeaders2 =
            (if aiVariant
             then hset (hset newHeaders1 ''Cache-Control'' ''private, no-store, max-age=0'')
                       ''Pragma'' ''no-cache''
             else newHeaders1)
      in new_Response e (resp_body resp) (resp_status resp) (resp_statusText resp) newHeaders2)"

subsection \<open>Detection of AI visitors (lines 67 to 84)\<close>

text \<open>
  The flags, as functions of the user agent \<^verbatim>\<open>ua\<close> and of \<^verbatim>\<open>qsAgent\<close>, the
  lower-cased \<^verbatim>\<open>user-agent\<close> query parameter.
\<close>

definition isChatGPT :: "string \<Rightarrow> string option \<Rightarrow> bool" where
  "isChatGPT ua qsAgent = (re_test True CHATGPT_UA_RE ua \<or> qsAgent = Some ''chatgpt'')"

definition isGPTBot :: "string \<Rightarrow> bool" where
  "isGPTBot ua = re_test True GPTBOT_UA_RE ua"

definition isGoogleExtended :: "string \<Rightarrow> bool" where
  "isGoogleExtended ua = re_test True GOOGLE_EXTENDED_RE ua"

definition isBingPreview :: "string \<Rightarrow> bool" where
  "isBingPreview ua = re_test True BING_PREVIEW_RE ua"

definition isPerplexity :: "string \<Rightarrow> bool" where
  "isPerplexity ua = re_test True PERPLEXITY_UA_RE ua"

definition isClaudeUser :: "string \<Rightarrow> bool" where
  "isClaudeUser ua = re_test True CLAUDE_USER_RE ua"

definition isClaudeWeb :: "string \<Rightarrow> bool" where
  "isClaudeWeb ua = re_test True CLAUDE_WEB_RE ua"

definition isClaudeBot :: "string \<Rightarrow> bool" where
  "isClaudeBot ua = re_test True CLAUDE_BOT_RE ua"

definition isAIVisitor :: "string \<Rightarrow> string option \<Rightarrow> bool" where
  "isAIVisitor ua qsAgent =
     (isChatGPT ua qsAgent \<or> isGPTBot ua \<or> isGoogleExtended ua \<or> isBingPreview ua \<or>
      isPerplexity ua \<or> isClaudeUser ua \<or> isClaudeWeb ua \<or> isClaudeBot ua)"

definition botType_of :: "string \<Rightarrow> string option \<Rightarrow> string" where
  "botType_of ua qsAgent =
     determineBotType (isChatGPT ua qsAgent) (isGPTBot ua) (isGoogleExtended ua)
       (isBingPreview ua) (isPerplexity ua) (isClaudeUser ua) (isClaudeWeb ua) (isClaudeBot ua)"

subsection \<open>The AI path (the \<^verbatim>\<open>try\<close> block, lines 143 to 207)\<close>

text \<open>
  A statement of the block either throws, which the \<^verbatim>\<open>catch\<close> of line 208
  handles, or goes on; the block returns a promise, whose outcome is the outcome of the
  handler. The block is given in its three parts.
\<close>

datatype completion = Thrown js_error | Returned "js_error + response"

text \<open>Lines 144 to 156: the fragment from the ALT origin.\<close>

definition ai_path_fragment :: "env \<Rightarrow> request \<Rightarrow> state \<Rightarrow> (js_error + string) \<times> state" where
  "ai_path_fragment e request st =
     (let url = req_url request in
      case fetchWithHost e (ALT_ORIGIN e) url request False True False st of
        (Inl err, st1) \<Rightarrow> (Inl err, st1)
      | (Inr altResp, st1) \<Rightarrow>
          (let st2 = console_log [Str ''ALT status'', Num (resp_status altResp), Str ''for'',
                                  Str (url_pathname url @ url_search url)] st1;
               none_found = console_log
                 [Str ''No #optimized-for-ai found in ALT; continuing without injection.'']
           in if resp_ok altResp then
                (case resp_text altResp of
                   Inl err \<Rightarrow> (Inl err, st2)
                 | Inr altText \<Rightarrow>
                     (case extractElementOuterHTMLById altText ''optimized-for-ai'' of
                        Inl err \<Rightarrow> (Inl err, st2)
                      | Inr found \<Rightarrow>
                          (let injectedHTML = or_else (Some found) []
                           in (Inr injectedHTML,
                               if injectedHTML = [] then none_found st2 else st2))))
              else (Inr [], none_found st2)))"

text \<open>Lines 160 to 185: the page from the current webserver, and one redirect.\<close>

definition ai_path_origin :: "env \<Rightarrow> request \<Rightarrow> state \<Rightarrow> (js_error + response) \<times> state" where
  "ai_path_origin e request st =
     (let url = req_url request;
          currentWebserverOrigin = url_origin url in
      case fetchWithHost e currentWebserverOrigin url request True False True st of
        (Inl err, st1) \<Rightarrow> (Inl err, st1)
      | (Inr origResp, st1) \<Rightarrow>
          if 300 \<le> resp_status origResp \<and> resp_status origResp < 400 then
            (let loc = hget (resp_headers origResp) ''location'' in
             if truthy loc then
               (let st2 = console_log [Str (''Current webserver redirect '' @ arrow),
                                       Str (or_else loc [])] st1
                in case new_URL_base e (or_else loc []) currentWebserverOrigin of
                     Inl err \<Rightarrow> (Inl err, st2)
                   | Inr canonURL \<Rightarrow>
                       (let isSameOrigin = (url_origin canonURL = url_origin url)
                        in fetchWithHost e (url_origin canonURL) canonURL request
                             True False isSameOrigin st2))
             else (Inr origResp, st1))
          else (Inr origResp, st1))"

text \<open>Lines 188 to 207: injection, or the original through \<^verbatim>\<open>fetch(request)\<close>.\<close>

definition ai_path_respond :: "env \<Rightarrow> request \<Rightarrow> string \<Rightarrow> response \<Rightarrow> state \<Rightarrow> completion \<times> state" where
  "ai_path_respond e request injectedHTML origResp st =
     (if injectedHTML \<noteq> [] \<and> isHTMLResponse origResp then
        (let st1 = console_log [Str ''Injecting AI snippet''] st in
         case resp_text origResp of
           Inl err \<Rightarrow> (Thrown err, st1)
         | Inr originalHTML \<Rightarrow>
             (let transformedHTML = injectHTML originalHTML injectedHTML in
              case new_Response e (TextBody transformedHTML) (resp_status origResp)
                     (resp_statusText origResp) (resp_headers origResp) of
                Inl err \<Rightarrow> (Thrown err, st1)
              | Inr r \<Rightarrow>
                  (case finalizeResponse e r True True of
                     Inl err \<Rightarrow> (Thrown err, st1)
                   | Inr out \<Rightarrow> (Returned (Inr out), st1))))
      else
        (let st1 = console_log
               [Str (''AI visitor but no injection/fallback '' @ arrow @
                     '' serving original via fetch(request)'')] st
         in case fetch e (of_request request) st1 of
              (r, st2) \<Rightarrow> (Returned r, st2)))"

definition ai_path :: "env \<Rightarrow> request \<Rightarrow> state \<Rightarrow> completion \<times> state" where
  "ai_path e request st =
     (case ai_path_fragment e request st of
        (Inl err, st1) \<Rightarrow> (Thrown err, st1)
      | (Inr injectedHTML, st1) \<Rightarrow>
          (case ai_path_origin e request st1 of
             (Inl err, st2) \<Rightarrow> (Thrown err, st2)
           | (Inr origResp, st2) \<Rightarrow> ai_path_respond e request injectedHTML origResp st2))"

subsection \<open>The request handler (lines 41 to 212)\<close>

text \<open>
  The telemetry POST of lines 126 to 133 is handed to \<^verbatim>\<open>fetch\<close> and its promise is
  not awaited; the callback of its \<^verbatim>\<open>catch\<close> writes one line to the console.
\<close>

definition telemetry_catch :: "js_error \<Rightarrow> log_entry" where
  "telemetry_catch err = Console_error [Str ''Failed to POST event:'', Err err]"

definition telemetry_request :: "postPayload \<Rightarrow> fetch_request" where
  "telemetry_request p =
     \<lparr>fr_url = EXTERNAL_API_URL,
      fr_method = ''POST'',
      fr_headers = [(''content-type'', ''application/json''),
                    (''user-agent'', ''PostmanRuntime/7.32.2'')],
      fr_body = JSON_stringify p,
      fr_redirect = Follow\<rparr>"

text \<open>Lines 43 and 44: the user agent and the lower-cased query parameter.\<close>

definition request_ua :: "request \<Rightarrow> string" where
  "request_ua request = or_else (hget (req_headers request) ''user-agent'') []"

definition request_qsAgent :: "request \<Rightarrow> string option" where
  "request_qsAgent request =
     map_option toLowerCase (searchParams_get (req_url request) ''user-agent'')"

text \<open>
  Lines 86 to 134: the visit is written to the console and, for an AI visitor, the
  telemetry POST is sent off.
\<close>

text \<open>Lines 87 to 89 and 110 to 123: the telemetry record of a visit.\<close>

definition postPayload_of :: "env \<Rightarrow> netlify_context \<Rightarrow> request \<Rightarrow> postPayload" where
  "postPayload_of e ctx request =
     (let url = req_url request;
          requestId = crypto_randomUUID e;
          clientIp = or_else (ctx_ip ctx)
                       (or_else (hget (req_headers request) ''x-forwarded-for'') ''unknown'');
          country = or_else (ctx_country_code ctx) ''unknown'';
          botType = botType_of (request_ua request) (request_qsAgent request)
      in \<lparr>data_launcher = ''proxy'',
          data_url = url_href url,
          data_bot_type = botType,
          data_client_ip = clientIp,
          data_country = country,
          event_type = ''chatgpt_user_agent'',
          payload_url = url_href url,
          user_id = requestId,
          campaign_id = ''00000000-0000-0000-0000-000000000000'',
          organization_id = ORGANIZATION_ID e\<rparr>)"

definition log_visit :: "env \<Rightarrow> netlify_context \<Rightarrow> request \<Rightarrow> state \<Rightarrow> state" where
  "log_visit e ctx request st =
     (let url = req_url request;
          ua = request_ua request;
          qsAgent = request_qsAgent request;
          currentWebserverOrigin = url_origin url;
          st1 = console_log [Str ''ORGANIZATION_ID:'',
                             Str (or_else (Some (ORGANIZATION_ID e)) ''NOT SET'')] st;
          st2 = console_log [Str ''User-Agent:'', Str ua] st1;
          st3 = console_log [Str ''Current webserver origin:'', Str currentWebserverOrigin] st2
      in
      if isAIVisitor ua qsAgent then
        (let botType = botType_of ua qsAgent;
             st4 = console_log [Str botType] st3
         in fetch_detached e (telemetry_request (postPayload_of e ctx request)) telemetry_catch st4)
      else st3)"

definition handler ::
  "env \<Rightarrow> netlify_context \<Rightarrow> request \<Rightarrow> state \<Rightarrow> (js_error + response) \<times> state" where
  "handler e ctx request st =
     (let url = req_url request;
          ua = request_ua request;
          qsAgent = request_qsAgent request
      in
      if hget (req_headers request) BYPASS_EDGE_FUNCTION_HEADER = Some ''true'' then
        fetch e (of_request request) st
      else if ORGANIZATION_ID e = [] \<or> trim (ORGANIZATION_ID e) = [] then
        fetch e (of_request request)
          (console_error
             [Str (''ERROR: ORGANIZATION_ID environment variable is not set. '' @
                   ''Please set it in Netlify Dashboard '' @ arrow @ '' Site settings '' @
                   arrow @ '' Environment variables'')] st)
      else if endsWith (url_pathname url) ''.txt'' \<or> endsWith (url_pathname url) ''.xml'' then
        fetch e (of_request request) st
      else
        (let st1 = log_visit e ctx request st in
         if \<not> isAIVisitor ua qsAgent then
           fetch e (of_request request)
             (console_log [Str (''Non-AI '' @ arrow @ '' passthrough''),
                           Str (url_pathname url @ url_search url)] st1)
         else
           (case ai_path e request st1 of
              (Thrown err, st2) \<Rightarrow>
                fetch e (of_request request)
                  (console_error [Str ''AI path error; falling back to normal fetch:'',
                                  Err err] st2)
            | (Returned r, st2) \<Rightarrow> (r, st2))))"

text \<open>The requests that get as far as the \<^verbatim>\<open>try\<close> block of line 143.\<close>

definition reaches_ai_path :: "env \<Rightarrow> request \<Rightarrow> bool" where
  "reaches_ai_path e request =
     (hget (req_headers request) BYPASS_EDGE_FUNCTION_HEADER \<noteq> Some ''true'' \<and>
      ORGANIZATION_ID e \<noteq> [] \<and> trim (ORGANIZATION_ID e) \<noteq> [] \<and>
      \<not> endsWith (url_pathname (req_url request)) ''.txt'' \<and>
      \<not> endsWith (url_pathname (req_url request)) ''.xml'' \<and>
      isAIVisitor (request_ua request) (request_qsAgent request))"

text \<open>The requests a step has handed to \<^verbatim>\<open>fetch\<close>: those of \<open>st'\<close> after those of \<open>st\<close>.\<close>

definition issued :: "state \<Rightarrow> state \<Rightarrow> fetch_request list" where
  "issued st st' = drop (length (fetched st)) (fetched st')"

section \<open>The classifier of the specification\<close>

text \<open>
  The specification's categories and its classifier, in its words: a fixed, ordered list
  of case-insensitive patterns is tried on the user agent and the first match wins; if
  none matches, the query parameter is accepted for the ChatGPT category only, by
  case-insensitive equality to a fixed token.
\<close>

datatype bot_category =
    ChatGPTUserAgent | GPTCrawler | GoogleExtended | BingPreview | PerplexityCrawler
  | ClaudeUserAgent | ClaudeWebAgent | ClaudeCrawler | NoCategory

definition spec_patterns :: "(string \<times> bot_category) list" where
  "spec_patterns =
     [(''ChatGPT-User/1.0'', ChatGPTUserAgent),
      (''GPTBot/1.0'', GPTCrawler),
      (''Google-Extended'', GoogleExtended),
      (''bingpreview'', BingPreview),
      (''PerplexityBot'', PerplexityCrawler),
      (''Claude-User'', ClaudeUserAgent),
      (''Claude-Web'', ClaudeWebAgent),
      (''ClaudeBot'', ClaudeCrawler)]"

definition ci_includes :: "string \<Rightarrow> string \<Rightarrow> bool" where
  "ci_includes s t = str_includes (toLowerCase s) (toLowerCase t)"

definition override_is_chatgpt :: "string option \<Rightarrow> bool" where
  "override_is_chatgpt q = (case q of None \<Rightarrow> False | Some v \<Rightarrow> toLowerCase v = ''chatgpt'')"

definition spec_classify :: "string \<Rightarrow> string option \<Rightarrow> bot_category" where
  "spec_classify ua q =
     (case find (\<lambda>p. ci_includes ua (fst p)) spec_patterns of
        Some p \<Rightarrow> snd p
      | None \<Rightarrow> if override_is_chatgpt q then ChatGPTUserAgent else NoCategory)"

text \<open>
  The classifier of the source: the category of the label \<open>determineBotType\<close> gives when
  \<open>isAIVisitor\<close> holds, for a user agent and a raw query parameter.
\<close>

definition category_of_label :: "string \<Rightarrow> bot_category" where
  "category_of_label l =
     (if l = ''ChatGPT-User'' then ChatGPTUserAgent
      else if l = ''GPTBot'' then GPTCrawler
      else if l = ''Google-Extended'' then GoogleExtended
      else if l = ''BingPreview'' then BingPreview
      else if l = ''PerplexityBot'' then PerplexityCrawler
      else if l = ''Claude-User'' then ClaudeUserAgent
      else if l = ''Claude-Web'' then ClaudeWebAgent
      else if l = ''ClaudeBot'' then ClaudeCrawler
      else NoCategory)"

definition classifier :: "string \<Rightarrow> string option \<Rightarrow> bot_category" where
  "classifier ua q =
     (let qsAgent = map_option toLowerCase q
      in if isAIVisitor ua qsAgent then category_of_label (botType_of ua qsAgent)
         else NoCategory)"

section \<open>Sample data\<close>

text \<open>A deployment, requests and responses on which the theorems below are instantiated.\<close>

definition demo_url :: url where
  "demo_url = \<lparr>url_href = ''https://a.io/p'', url_origin = ''https://a.io'',
     url_pathname = ''/p'', url_search = [], url_searchParams = []\<rparr>"

definition demo_request :: request where
  "demo_request = \<lparr>req_url = demo_url, req_method = ''GET'',
     req_headers = [(''user-agent'', ''ClaudeBot'')], req_body = None, req_redirect = Follow\<rparr>"

definition bypass_request :: request where
  "bypass_request = demo_request\<lparr>req_headers :=
     [(''user-agent'', ''ClaudeBot''), (''x-internal-fetch'', ''true'')]\<rparr>"

text \<open>A request with a body from an AI visitor, and the same request from a browser.\<close>

definition post_request :: request where
  "post_request = demo_request\<lparr>req_method := ''POST'', req_body := Some ''q=1''\<rparr>"

definition browser_post_request :: request where
  "browser_post_request = post_request\<lparr>req_headers := [(''user-agent'', ''Mozilla/5.0'')]\<rparr>"

definition demo_response :: "nat \<Rightarrow> headers \<Rightarrow> string \<Rightarrow> response" where
  "demo_response status hs text =
     \<lparr>resp_status = status, resp_statusText = [], resp_headers = hs, resp_body = TextBody text\<rparr>"

definition demo_env :: env where
  "demo_env =
     \<lparr>deno_env_ORGANIZATION_ID = Some ''org'',
      net_fetch = (\<lambda>h r. Inr (demo_response 200 [(''content-type'', ''text/html'')] ''<p>X</p>'')),
      detached_settles = True,
      new_URL = (\<lambda>s. Inr (demo_url\<lparr>url_href := s\<rparr>)),
      new_URL_base = (\<lambda>s b. Inr demo_url),
      response_init_error = (\<lambda>status statusText has_body. None),
      crypto_randomUUID = ''id''\<rparr>"

definition demo_context :: netlify_context where
  "demo_context = \<lparr>ctx_ip = None, ctx_country_code = None\<rparr>"

definition start :: state where
  "start = \<lparr>fetched = [], console = [], bodyUsed = False, console_detached = []\<rparr>"

definition alt_document :: string where
  "alt_document = ''<i id='' @ [CHR 0x22] @ ''optimized-for-ai'' @ [CHR 0x22] @ ''>F</i>''"

text \<open>
  A network whose ALT origin holds \<open>alt_document\<close> and whose other answers are a page of
  the content type \<open>ct\<close>; one on which every fetch of \<open>fetchWithHost\<close> fails; one whose
  webserver redirects \<^verbatim>\<open>/p\<close> to \<^verbatim>\<open>/q\<close> and answers there with a second
  redirect; one whose redirect has an empty \<^verbatim>\<open>Location\<close>; and two that answer
  with a redirect whose target cannot be used, as the location does not resolve or as
  no URL can be built from what it resolves to.
\<close>

definition sample_env :: "string \<Rightarrow> env" where
  "sample_env ct = demo_env\<lparr>net_fetch :=
     (\<lambda>h r. if prefix ''https://s'' (fr_url r) then Inr (demo_response 200 [] alt_document)
             else Inr (demo_response 200 [(''content-type'', ct)] ''<p>X</p>''))\<rparr>"

definition failing_env :: env where
  "failing_env = demo_env\<lparr>net_fetch :=
     (\<lambda>h r. if fr_redirect r = Manual then Inl (NetworkError ''down'')
             else Inr (demo_response 200 [] ''<p>X</p>''))\<rparr>"

definition moved_url :: url where
  "moved_url = demo_url\<lparr>url_href := ''https://a.io/q'', url_pathname := ''/q''\<rparr>"

definition moved_response :: response where
  "moved_response = demo_response 302 [(''location'', ''/q'')] []"

definition moved_again_response :: response where
  "moved_again_response =
     demo_response 301 [(''location'', ''/r''), (''content-type'', ''text/html'')] ''<p>X</p>''"

definition redirect_env :: env where
  "redirect_env = demo_env\<lparr>
     net_fetch :=
       (\<lambda>h r. if prefix ''https://s'' (fr_url r) then Inr (demo_response 200 [] alt_document)
               else if fr_url r = ''https://a.io/p'' then Inr moved_response
               else Inr moved_again_response),
     new_URL_base := (\<lambda>s b. Inr moved_url)\<rparr>"

definition empty_location_response :: response where
  "empty_location_response = demo_response 302 [(''location'', [])] []"

definition empty_location_env :: env where
  "empty_location_env = demo_env\<lparr>net_fetch := (\<lambda>h r. Inr empty_location_response)\<rparr>"

definition unresolved_env :: env where
  "unresolved_env = demo_env\<lparr>
     net_fetch := (\<lambda>h r. Inr moved_response),
     new_URL_base := (\<lambda>s b. Inl TypeError)\<rparr>"

definition untargetable_env :: env where
  "untargetable_env = demo_env\<lparr>
     net_fetch := (\<lambda>h r. Inr moved_response),
     new_URL := (\<lambda>s. if s = ''https://a.io/q'' then Inl TypeError
                      else Inr (demo_url\<lparr>url_href := s\<rparr>)),
     new_URL_base := (\<lambda>s b. Inr moved_url)\<rparr>"

section \<open>Notions of the claims\<close>

text \<open>The value line 332 gives the \<^verbatim>\<open>Vary\<close> header, from the value it had.\<close>

definition vary_with_user_agent :: "string option \<Rightarrow> string" where
  "vary_with_user_agent prev =
     (case prev of
        None \<Rightarrow> ''User-Agent''
      | Some p \<Rightarrow> if p = [] then ''User-Agent'' else p @ '', User-Agent'')"

text \<open>
  The telemetry POST is the one request of the handler that carries a telemetry record.
  \<open>telemetry_down\<close> is the network of \<open>demo_env\<close> with the telemetry endpoint down.
\<close>

definition is_telemetry :: "fetch_request \<Rightarrow> bool" where
  "is_telemetry r = (case fr_body r of JSON_stringify p \<Rightarrow> True | _ \<Rightarrow> False)"

definition telemetry_down :: "fetch_request list \<Rightarrow> fetch_request \<Rightarrow> js_error + response" where
  "telemetry_down h r =
     (if is_telemetry r then Inl (NetworkError ''down'') else net_fetch demo_env h r)"

text \<open>
  The replacement patterns that \<^verbatim>\<open>replace\<close> expands when the pattern has no capture
  groups: a dollar sign followed by a dollar sign, an ampersand, a backquote or a quote.
  \<open>has_replacement_pattern t\<close> tells whether one of them occurs in \<open>t\<close>.
\<close>

fun has_replacement_pattern :: "string \<Rightarrow> bool" where
  "has_replacement_pattern [] = False"
| "has_replacement_pattern [c] = False"
| "has_replacement_pattern (c # d # t) =
     ((c = CHR ''$'' \<and> d \<in> set [CHR ''$'', CHR ''&'', CHR 0x60, CHR 0x27]) \<or>
      has_replacement_pattern (d # t))"

section \<open>Letter case and literal patterns\<close>

lemma lower_upper [simp]: "toLowerCase_char (toUpperCase_char c) = toLowerCase_char c"
  by (simp add: toUpperCase_char_def toLowerCase_char_def)

lemma upper_lower [simp]: "toUpperCase_char (toLowerCase_char c) = toUpperCase_char c"
  by (simp add: toUpperCase_char_def toLowerCase_char_def)

lemma upper_eq_iff_lower_eq:
  "toUpperCase_char a = toUpperCase_char b \<longleftrightarrow> toLowerCase_char a = toLowerCase_char b"
  by (metis lower_upper upper_lower)

lemma prefix_map_upper_lower:
  "prefix (map toUpperCase_char p) (map toUpperCase_char s) \<longleftrightarrow>
   prefix (map toLowerCase_char p) (map toLowerCase_char s)"
proof (induction p arbitrary: s)
  case Nil
  show ?case by simp
next
  case (Cons a p)
  show ?case
  proof (cases s)
    case Nil
    then show ?thesis by simp
  next
    case (Cons b s')
    then show ?thesis using Cons.IH [of s'] by (simp add: upper_eq_iff_lower_eq)
  qed
qed

lemma re_matches_lits:
  "re_matches ic (lits p) (s, k) =
     (if prefix (map (canonicalize ic) p) (map (canonicalize ic) s)
      then [(drop (length p) s, k)] else [])"
proof (induction p arbitrary: s)
  case Nil
  show ?case by simp
next
  case (Cons a p)
  show ?case
  proof (cases s)
    case Nil
    then show ?thesis by simp
  next
    case (Cons b s')
    then show ?thesis using Cons.IH [of s'] by (auto simp: eq_commute)
  qed
qed

lemma re_exec_at_lits:
  "re_exec_at ic (lits p) s =
     (if prefix (map (canonicalize ic) p) (map (canonicalize ic) s)
      then Some (take (length p) s, drop (length p) s, Map.empty) else None)"
  by (auto simp: re_exec_at_def re_matches_lits prefix_def) (metis length_map length_append le_add1 min.absorb2 diff_diff_cancel length_drop)

lemma re_search_lits_None:
  "re_search ic (lits p) pre s = None \<longleftrightarrow>
   \<not> str_includes (map (canonicalize ic) s) (map (canonicalize ic) p)"
proof (induction s arbitrary: pre)
  case Nil
  show ?case by (simp add: re_exec_at_lits)
next
  case (Cons c s)
  show ?case using Cons.IH by (simp add: re_exec_at_lits)
qed

lemma str_includes_upper_lower:
  "str_includes (map toUpperCase_char s) (map toUpperCase_char p) \<longleftrightarrow>
   str_includes (map toLowerCase_char s) (map toLowerCase_char p)"
proof (induction s)
  case Nil
  show ?case by simp
next
  case (Cons c s)
  show ?case using Cons.IH prefix_map_upper_lower [of p "c # s"] by simp
qed

lemma canonicalize_True: "canonicalize True = toUpperCase_char"
  by (rule ext) (simp add: canonicalize_def)

lemma re_test_lits: "re_test True (lits p) s = ci_includes s p"
  by (simp add: re_test_def re_search_lits_None ci_includes_def toLowerCase_def
      canonicalize_True str_includes_upper_lower)

lemma flags_ci:
  "isChatGPT ua qs = (ci_includes ua ''ChatGPT-User/1.0'' \<or> qs = Some ''chatgpt'')"
  "isGPTBot ua = ci_includes ua ''GPTBot/1.0''"
  "isGoogleExtended ua = ci_includes ua ''Google-Extended''"
  "isBingPreview ua = ci_includes ua ''bingpreview''"
  "isPerplexity ua = ci_includes ua ''PerplexityBot''"
  "isClaudeUser ua = ci_includes ua ''Claude-User''"
  "isClaudeWeb ua = ci_includes ua ''Claude-Web''"
  "isClaudeBot ua = ci_includes ua ''ClaudeBot''"
  by (simp_all only: isChatGPT_def isGPTBot_def isGoogleExtended_def isBingPreview_def
      isPerplexity_def isClaudeUser_def isClaudeWeb_def isClaudeBot_def
      CHATGPT_UA_RE_def GPTBOT_UA_RE_def GOOGLE_EXTENDED_RE_def BING_PREVIEW_RE_def
      PERPLEXITY_UA_RE_def CLAUDE_USER_RE_def CLAUDE_WEB_RE_def CLAUDE_BOT_RE_def
      re_test_lits)

lemma classifier_eq:
  "classifier ua q =
     (if override_is_chatgpt q then ChatGPTUserAgent else spec_classify ua q)"
  by (cases q)
     (simp_all add: classifier_def spec_classify_def override_is_chatgpt_def isAIVisitor_def
      botType_of_def flags_ci spec_patterns_def category_of_label_def)

section \<open>Headers\<close>

lemma toLowerCase_char_idem [simp]: "toLowerCase_char (toLowerCase_char c) = toLowerCase_char c"
  by (metis lower_upper upper_lower)

lemma toLowerCase_idem [simp]: "toLowerCase (toLowerCase s) = toLowerCase s"
  by (simp add: toLowerCase_def)

lemma same_name_lower [simp]: "same_name (toLowerCase n) m = same_name n m"
  by (simp add: same_name_def)

lemma same_name_refl [simp]: "same_name n n"
  by (simp add: same_name_def)

lemma filter_hdelete_same [simp]: "filter (\<lambda>e. same_name (fst e) n) (hdelete h n) = []"
  by (induction h) (simp_all add: hdelete_def)

lemma filter_hdelete_other:
  "\<not> same_name m n \<Longrightarrow>
   filter (\<lambda>e. same_name (fst e) n) (hdelete h m) = filter (\<lambda>e. same_name (fst e) n) h"
  by (induction h) (auto simp: hdelete_def same_name_def)

lemma hget_hdelete_same [simp]: "hget (hdelete h n) n = None"
  by (simp add: hget_def)

lemma hget_hdelete_other: "\<not> same_name m n \<Longrightarrow> hget (hdelete h m) n = hget h n"
  by (simp add: hget_def filter_hdelete_other)

lemma hget_hset_same [simp]: "hget (hset h n v) n = Some v"
  by (induction h) (simp_all add: hget_def)

lemma filter_hset_other:
  "\<not> same_name m n \<Longrightarrow>
   filter (\<lambda>e. same_name (fst e) n) (hset h m v) = filter (\<lambda>e. same_name (fst e) n) h"
proof (induction h)
  case Nil
  then show ?case by (simp add: same_name_def)
next
  case (Cons e h)
  then show ?case by (auto simp: filter_hdelete_other) (auto simp: same_name_def)
qed

lemma hget_hset_other: "\<not> same_name m n \<Longrightarrow> hget (hset h m v) n = hget h n"
  by (simp add: hget_def filter_hset_other)

section \<open>The loop-prevention marker\<close>

lemma bypass_passthrough:
  assumes "hget (req_headers request) BYPASS_EDGE_FUNCTION_HEADER = Some ''true''"
  shows "handler e ctx request st = fetch e (of_request request) st"
  using assms by (simp add: handler_def Let_def)

lemma fetchWithHost_bypass_irrelevant:
  "fetchWithHost e origin u req fixHost logURL b st =
   fetchWithHost e origin u req fixHost logURL b' st"
  by (simp add: fetchWithHost_def fetchWithHost_init_def split: sum.splits)

lemma not_same_host_bypass: "\<not> same_name ''host'' BYPASS_EDGE_FUNCTION_HEADER"
  by (simp add: same_name_def BYPASS_EDGE_FUNCTION_HEADER_def toLowerCase_def toLowerCase_char_def)

lemma fetchWithHost_issued:
  "issued st (snd (fetchWithHost e origin u req fixHost logURL b st)) =
     (case new_URL e (origin @ url_pathname u @ url_search u) of
        Inl err \<Rightarrow> []
      | Inr proxied \<Rightarrow> [fetchWithHost_init origin proxied req fixHost b])"
  by (simp add: fetchWithHost_def issued_def fetch_def console_log_def Let_def split: sum.splits)

lemma fetchWithHost_init_marker:
  "hget (fr_headers (fetchWithHost_init origin proxied req fixHost b))
     BYPASS_EDGE_FUNCTION_HEADER = Some ''true''"
  by (simp add: fetchWithHost_init_def Let_def hget_hset_other not_same_host_bypass)

lemma fetchWithHost_marker:
  "\<forall>r \<in> set (issued st (snd (fetchWithHost e origin u req fixHost logURL b st))).
     hget (fr_headers r) BYPASS_EDGE_FUNCTION_HEADER = Some ''true''"
  by (auto simp: fetchWithHost_issued fetchWithHost_init_marker split: sum.splits)

lemma hget_bypass_request:
  "hget (req_headers bypass_request) BYPASS_EDGE_FUNCTION_HEADER = Some ''true''"
  by (simp add: bypass_request_def hget_def same_name_def BYPASS_EDGE_FUNCTION_HEADER_def
      toLowerCase_def toLowerCase_char_def)

text \<open>
  C1. A request whose \<^verbatim>\<open>X-Internal-Fetch\<close> header reads \<^verbatim>\<open>true\<close> is answered by
  \<^verbatim>\<open>fetch(request)\<close> of the unmodified request, whatever its other headers, its user
  agent and its query are: the handler does what that one fetch does and nothing else.
  It hands that one request to \<^verbatim>\<open>fetch\<close> (no telemetry, no fetch of the ALT origin)
  and writes nothing to the console.
\<close>

theorem handler_bypass_passthrough:
  assumes "hget (req_headers request) BYPASS_EDGE_FUNCTION_HEADER = Some ''true''"
  shows "handler e ctx request st = fetch e (of_request request) st \<and>
         issued st (snd (handler e ctx request st)) = [of_request request] \<and>
         console (snd (handler e ctx request st)) = console st"
  using assms by (simp add: bypass_passthrough fetch_def issued_def)

theorem handler_bypass_passthrough_witness:
  "hget (req_headers bypass_request) BYPASS_EDGE_FUNCTION_HEADER = Some ''true'' \<and>
   handler demo_env demo_context bypass_request start =
     fetch demo_env (of_request bypass_request) start \<and>
   issued start (snd (handler demo_env demo_context bypass_request start)) =
     [of_request bypass_request]"
  using handler_bypass_passthrough [OF hget_bypass_request, of demo_env demo_context start]
    hget_bypass_request by blast

text \<open>
  C3. Every request \<open>fetchWithHost\<close> hands to \<^verbatim>\<open>fetch\<close> carries the header
  \<^verbatim>\<open>X-Internal-Fetch\<close> with the value \<^verbatim>\<open>true\<close>, and the parameter
  \<open>bypassEdgeFunction\<close> changes nothing of what the function does. (It hands over one
  request when the target URL can be built and none when it cannot.)
\<close>

theorem fetchWithHost_always_marks:
  "list_all (\<lambda>r. hget (fr_headers r) BYPASS_EDGE_FUNCTION_HEADER = Some ''true'')
     (issued st (snd (fetchWithHost e origin u req fixHost logURL b st))) \<and>
   fetchWithHost e origin u req fixHost logURL b st =
     fetchWithHost e origin u req fixHost logURL (\<not> b) st \<and>
   length (issued st (snd (fetchWithHost e origin u req fixHost logURL b st))) =
     (case new_URL e (origin @ url_pathname u @ url_search u) of Inl err \<Rightarrow> 0 | Inr p \<Rightarrow> 1)"
  using fetchWithHost_marker [of st e origin u req fixHost logURL b]
    fetchWithHost_bypass_irrelevant [of e origin u req fixHost logURL b st "\<not> b"]
  by (simp add: list_all_iff fetchWithHost_issued split: sum.splits)

theorem fetchWithHost_always_marks_witness:
  "list_all (\<lambda>r. hget (fr_headers r) BYPASS_EDGE_FUNCTION_HEADER = Some ''true'')
     (issued start (snd (fetchWithHost demo_env ''https://a.io'' demo_url demo_request
        True False False start))) \<and>
   length (issued start (snd (fetchWithHost demo_env ''https://a.io'' demo_url demo_request
        True False False start))) = 1"
proof -
  note t = fetchWithHost_always_marks
    [of start demo_env "''https://a.io''" demo_url demo_request True False False]
  have n: "new_URL demo_env s = Inr (demo_url\<lparr>url_href := s\<rparr>)" for s
    by (simp add: demo_env_def)
  from t have a: "list_all (\<lambda>r. hget (fr_headers r) BYPASS_EDGE_FUNCTION_HEADER = Some ''true'')
     (issued start (snd (fetchWithHost demo_env ''https://a.io'' demo_url demo_request
        True False False start)))"
    by (rule conjunct1)
  from t have c: "length (issued start (snd (fetchWithHost demo_env ''https://a.io'' demo_url
        demo_request True False False start))) =
     (case new_URL demo_env (''https://a.io'' @ url_pathname demo_url @ url_search demo_url) of
        Inl err \<Rightarrow> 0 | Inr p \<Rightarrow> 1)"
    by (rule conjunct2 [THEN conjunct2])
  show ?thesis using a c by (simp add: n)
qed

section \<open>Classification\<close>

lemma classifier_examples:
  "classifier ''GPTBot/1.0'' (Some ''chatgpt'') = ChatGPTUserAgent"
  "spec_classify ''GPTBot/1.0'' (Some ''chatgpt'') = GPTCrawler"
  by (simp_all add: classifier_eq override_is_chatgpt_def spec_classify_def spec_patterns_def
      ci_includes_def toLowerCase_def toLowerCase_char_def)

text \<open>
  C2, as the specification states it, fails: the query parameter is accepted also when a
  pattern matches the user agent. For the user agent \<^verbatim>\<open>GPTBot/1.0\<close> and the query
  parameter \<^verbatim>\<open>chatgpt\<close> the source gives the ChatGPT category, the specification's
  classifier the category of the pattern that matches.
\<close>

theorem classifier_not_spec_classify:
  "classifier ''GPTBot/1.0'' (Some ''chatgpt'') \<noteq> spec_classify ''GPTBot/1.0'' (Some ''chatgpt'')"
  by (simp add: classifier_examples)

text \<open>
  C2, amended. A query parameter \<^verbatim>\<open>user-agent\<close> that equals \<^verbatim>\<open>chatgpt\<close> without
  regard to case gives the ChatGPT category whatever the user agent is; for every other
  request the classifier of the source is the classifier of the specification: the
  eight case-insensitive patterns in their order, the first match wins, and no category
  when none matches.
\<close>

theorem classifier_override_first:
  "classifier ua q =
     (if override_is_chatgpt q then ChatGPTUserAgent else spec_classify ua q)"
  by (rule classifier_eq)

section \<open>The response finalizer\<close>

lemma header_names_differ:
  "\<not> same_name ''Vary'' ''content-length''"
  "\<not> same_name ''content-length'' ''Vary''"
  "\<not> same_name ''Cache-Control'' ''content-length''"
  "\<not> same_name ''Pragma'' ''content-length''"
  "\<not> same_name ''Cache-Control'' ''Vary''"
  "\<not> same_name ''Pragma'' ''Vary''"
  by (simp_all add: same_name_def toLowerCase_def toLowerCase_char_def)

lemma finalizeResponse_Inr:
  assumes "finalizeResponse e resp varyUA aiVariant = Inr out"
  shows "hget (resp_headers out) ''content-length'' = None"
    and "resp_status out = resp_status resp"
    and "resp_statusText out = resp_statusText resp"
    and "resp_body out = resp_body resp"
    and "hget (resp_headers out) ''Vary'' =
           (if varyUA then Some (vary_with_user_agent (hget (resp_headers resp) ''Vary''))
            else hget (resp_headers resp) ''Vary'')"
  using assms
  by (auto simp: finalizeResponse_def new_Response_def Let_def hget_hset_other hget_hdelete_other
      header_names_differ vary_with_user_agent_def split: option.splits if_splits)

lemma finalizeResponse_returns:
  "(\<exists>out. finalizeResponse e resp varyUA aiVariant = Inr out) \<longleftrightarrow>
   response_init_error e (resp_status resp) (resp_statusText resp) (resp_body resp \<noteq> NullBody) = None"
  by (auto simp: finalizeResponse_def new_Response_def Let_def split: option.splits)

text \<open>
  C7, as the specification states it, fails: a \<^verbatim>\<open>Vary\<close> header that already lists
  \<^verbatim>\<open>User-Agent\<close> gains a second entry.
\<close>

theorem finalizeResponse_duplicate:
  "finalizeResponse demo_env (demo_response 200 [(''vary'', ''User-Agent'')] ''x'') True False =
   Inr (demo_response 200 [(''vary'', ''User-Agent, User-Agent'')] ''x'')"
  by (simp add: finalizeResponse_def new_Response_def demo_env_def demo_response_def Let_def
      hget_def hdelete_def same_name_def toLowerCase_def toLowerCase_char_def)

text \<open>
  C7, amended. Whenever the finalizer returns a response, that response has no
  \<^verbatim>\<open>Content-Length\<close> header and the status, status text and body of the input; when
  \<open>varyUA\<close> is set, its \<^verbatim>\<open>Vary\<close> header is the former value followed by a comma
  and \<^verbatim>\<open>User-Agent\<close> (or \<^verbatim>\<open>User-Agent\<close> alone when there was none or an
  empty one): nothing of the former value is dropped, and \<^verbatim>\<open>User-Agent\<close> is
  appended whether or not the former value lists it already. When \<open>varyUA\<close> is not set
  the header is left as it was.
\<close>

theorem finalizeResponse_headers:
  assumes "finalizeResponse e resp varyUA aiVariant = Inr out"
  shows "hget (resp_headers out) ''Content-Length'' = None \<and>
         resp_status out = resp_status resp \<and>
         resp_statusText out = resp_statusText resp \<and>
         resp_body out = resp_body resp \<and>
         hget (resp_headers out) ''Vary'' =
           (if varyUA then Some (vary_with_user_agent (hget (resp_headers resp) ''Vary''))
            else hget (resp_headers resp) ''Vary'')"
  using finalizeResponse_Inr [OF assms]
  by (simp add: hget_def same_name_def toLowerCase_def toLowerCase_char_def)

theorem finalizeResponse_headers_witness:
  "finalizeResponse demo_env
     (demo_response 200 [(''content-length'', ''8''), (''vary'', ''Accept'')] ''<p>X</p>'')
     True True =
   Inr (demo_response 200
         [(''vary'', ''Accept, User-Agent''),
          (''cache-control'', ''private, no-store, max-age=0''),
          (''pragma'', ''no-cache'')] ''<p>X</p>'') \<and>
   hget [(''vary'', ''Accept, User-Agent''),
         (''cache-control'', ''private, no-store, max-age=0''),
         (''pragma'', ''no-cache'')] ''Content-Length'' = None \<and>
   hget [(''vary'', ''Accept, User-Agent''),
         (''cache-control'', ''private, no-store, max-age=0''),
         (''pragma'', ''no-cache'')] ''Vary'' = Some ''Accept, User-Agent''"
proof -
  have h: "finalizeResponse demo_env
     (demo_response 200 [(''content-length'', ''8''), (''vary'', ''Accept'')] ''<p>X</p>'')
     True True =
   Inr (demo_response 200
         [(''vary'', ''Accept, User-Agent''),
          (''cache-control'', ''private, no-store, max-age=0''),
          (''pragma'', ''no-cache'')] ''<p>X</p>'')"
    by code_simp
  have v: "vary_with_user_agent (hget (resp_headers (demo_response 200
      [(''content-length'', ''8''), (''vary'', ''Accept'')] ''<p>X</p>'')) ''Vary'') =
      ''Accept, User-Agent''"
    by code_simp
  from finalizeResponse_headers [OF h] h v show ?thesis
    by (simp add: demo_response_def)
qed

section \<open>The body stream of the request\<close>

lemma uses_stream_of_request:
  "uses_stream (of_request request) = (request_body request \<noteq> None)"
  by (simp add: uses_stream_def of_request_def split: option.splits)

lemma uses_stream_init:
  "uses_stream (fetchWithHost_init origin proxied req fixHost b) = (request_body req \<noteq> None)"
  by (simp add: uses_stream_def fetchWithHost_init_def request_body_def Let_def split: option.splits)

lemma bodyUsed_console [simp]:
  "bodyUsed (console_error args s) = bodyUsed s" "bodyUsed (console_log args s) = bodyUsed s"
  by (simp_all add: console_error_def console_log_def)

lemma fetched_console [simp]:
  "fetched (console_error args s) = fetched s" "fetched (console_log args s) = fetched s"
  by (simp_all add: console_error_def console_log_def)

lemma fetch_plain:
  "\<not> uses_stream r \<Longrightarrow>
   fetch e r st = (net_fetch e (fetched st) r, st\<lparr>fetched := fetched st @ [r]\<rparr>)"
  by (simp add: fetch_def)

lemma fetch_Inr_bodyUsed:
  "fetch e r st = (Inr x, st1) \<Longrightarrow> uses_stream r \<Longrightarrow> bodyUsed st1"
  by (auto simp: fetch_def split: if_splits)

lemma fetch_used:
  "bodyUsed st \<Longrightarrow> uses_stream r \<Longrightarrow>
   fetch e r st = (Inl TypeError, st\<lparr>fetched := fetched st @ [r]\<rparr>)"
  by (simp add: fetch_def)

lemma fetchWithHost_Inr_bodyUsed:
  assumes "fetchWithHost e origin u req fixHost logURL b st = (Inr x, st1)"
    and "request_body req \<noteq> None"
  shows "bodyUsed st1"
  using assms
  by (auto simp: fetchWithHost_def Let_def uses_stream_init split: sum.splits if_splits
      dest!: fetch_Inr_bodyUsed)

lemma fetchWithHost_used:
  assumes "bodyUsed st" and "request_body req \<noteq> None"
  shows "fst (fetchWithHost e origin u req fixHost logURL b st) \<noteq> Inr x"
  using assms
  by (auto simp: fetchWithHost_def Let_def uses_stream_init fetch_used split: sum.splits)

lemma bodyUsed_fetch_mono: "bodyUsed st \<Longrightarrow> bodyUsed (snd (fetch e r st))"
  by (simp add: fetch_def)

lemma bodyUsed_fetchWithHost_mono:
  "bodyUsed st \<Longrightarrow> bodyUsed (snd (fetchWithHost e origin u req fixHost logURL b st))"
  by (simp add: fetchWithHost_def Let_def bodyUsed_fetch_mono split: sum.splits)

lemma ai_path_fragment_Inr_bodyUsed:
  assumes "ai_path_fragment e request st = (Inr x, st1)"
    and "request_body request \<noteq> None"
  shows "bodyUsed st1"
proof (cases "fetchWithHost e (ALT_ORIGIN e) (req_url request) request False True False st")
  case (Pair r s)
  show ?thesis
  proof (cases r)
    case (Inl err)
    with Pair assms show ?thesis by (simp add: ai_path_fragment_def Let_def)
  next
    case (Inr altResp)
    with Pair have "bodyUsed s" using fetchWithHost_Inr_bodyUsed assms(2) by blast
    with Pair Inr assms(1) show ?thesis
      by (auto simp: ai_path_fragment_def Let_def split: sum.splits if_splits)
  qed
qed

lemma ai_path_origin_Inr_no_stream:
  assumes "ai_path_origin e request st = (Inr x, st1)" and "bodyUsed st"
  shows "request_body request = None"
proof (rule ccontr)
  assume b: "request_body request \<noteq> None"
  obtain r s where p: "fetchWithHost e (url_origin (req_url request)) (req_url request) request
      True False True st = (r, s)" by (cases "fetchWithHost e (url_origin (req_url request)) (req_url request) request
      True False True st")
  have "r \<noteq> Inr y" for y using fetchWithHost_used [OF assms(2) b, where x = y and e = e] p by (metis fst_conv)
  then obtain err where "r = Inl err" by (cases r) auto
  with p assms(1) show False by (simp add: ai_path_origin_def Let_def)
qed

lemma ai_path_phases_no_stream:
  assumes "ai_path_fragment e request st = (Inr injectedHTML, st1)"
    and "ai_path_origin e request st1 = (Inr origResp, st2)"
  shows "request_body request = None"
  using ai_path_fragment_Inr_bodyUsed [OF assms(1)] ai_path_origin_Inr_no_stream [OF assms(2)]
  by blast

section \<open>The handler\<close>

lemma handler_ai:
  assumes "reaches_ai_path e request"
  shows "handler e ctx request st =
     (case ai_path e request (log_visit e ctx request st) of
        (Thrown err, st2) \<Rightarrow>
           fetch e (of_request request)
             (console_error [Str ''AI path error; falling back to normal fetch:'',
                             Err err] st2)
      | (Returned r, st2) \<Rightarrow> (r, st2))"
  using assms by (simp add: handler_def reaches_ai_path_def Let_def)

lemma handler_thrown:
  assumes "reaches_ai_path e request"
    and "ai_path e request (log_visit e ctx request st) = (Thrown err, st')"
  shows "handler e ctx request st =
     fetch e (of_request request)
       (console_error [Str ''AI path error; falling back to normal fetch:'', Err err] st')"
  using assms by (simp add: handler_ai)

lemma ai_path_not_html:
  assumes "ai_path_fragment e request st = (Inr injectedHTML, st1)"
    and "ai_path_origin e request st1 = (Inr origResp, st2)"
    and "\<not> str_includes (or_else (hget (resp_headers origResp) ''content-type'') []) ''text/html''"
  shows "ai_path e request st =
     (case fetch e (of_request request)
             (console_log [Str (''AI visitor but no injection/fallback '' @ arrow @
                                '' serving original via fetch(request)'')] st2)
      of (r, s) \<Rightarrow> (Returned r, s))"
  using assms by (simp add: ai_path_def ai_path_respond_def isHTMLResponse_def Let_def)

lemma handler_not_html:
  assumes "reaches_ai_path e request"
    and "ai_path_fragment e request (log_visit e ctx request st) = (Inr injectedHTML, st1)"
    and "ai_path_origin e request st1 = (Inr origResp, st2)"
    and "\<not> str_includes (or_else (hget (resp_headers origResp) ''content-type'') []) ''text/html''"
  shows "handler e ctx request st =
     fetch e (of_request request)
       (console_log [Str (''AI visitor but no injection/fallback '' @ arrow @
                          '' serving original via fetch(request)'')] st2)"
  using assms(1) ai_path_not_html [OF assms(2-4)]
  by (simp add: handler_ai split: prod.splits)

text \<open>
  C10. The test for HTML is a case-sensitive search for \<^verbatim>\<open>text/html\<close> in the
  \<^verbatim>\<open>Content-Type\<close> header (taken as empty when absent). When the response of the
  webserver, after the redirect if there was one, fails that test, an AI visitor is
  answered by \<^verbatim>\<open>fetch(request)\<close> of the unmodified request, also when a fragment
  was found: the handler does what that fetch does after the line it writes to the
  console, and its outcome is the answer of the network to the unmodified request.
\<close>

theorem non_html_falls_back:
  assumes "reaches_ai_path e request"
    and "ai_path_fragment e request (log_visit e ctx request st) = (Inr injectedHTML, st1)"
    and "ai_path_origin e request st1 = (Inr origResp, st2)"
    and "\<not> str_includes (or_else (hget (resp_headers origResp) ''content-type'') []) ''text/html''"
  shows "\<not> isHTMLResponse origResp \<and>
         handler e ctx request st =
           fetch e (of_request request)
             (console_log [Str (''AI visitor but no injection/fallback '' @ arrow @
                                '' serving original via fetch(request)'')] st2) \<and>
         fst (handler e ctx request st) = net_fetch e (fetched st2) (of_request request)"
  using handler_not_html [OF assms] assms(4) ai_path_phases_no_stream [OF assms(2,3)]
  by (simp add: isHTMLResponse_def fetch_plain uses_stream_of_request)

theorem non_html_falls_back_witness:
  "reaches_ai_path (sample_env ''Text/HTML'') demo_request \<and>
   fst (ai_path_fragment (sample_env ''Text/HTML'') demo_request
          (log_visit (sample_env ''Text/HTML'') demo_context demo_request start)) =
     Inr alt_document \<and>
   alt_document \<noteq> [] \<and>
   fst (ai_path_origin (sample_env ''Text/HTML'') demo_request
          (snd (ai_path_fragment (sample_env ''Text/HTML'') demo_request
             (log_visit (sample_env ''Text/HTML'') demo_context demo_request start)))) =
     Inr (demo_response 200 [(''content-type'', ''Text/HTML'')] ''<p>X</p>'') \<and>
   \<not> isHTMLResponse (demo_response 200 [(''content-type'', ''Text/HTML'')] ''<p>X</p>'') \<and>
   fst (handler (sample_env ''Text/HTML'') demo_context demo_request start) =
     net_fetch (sample_env ''Text/HTML'')
       (fetched (snd (ai_path_origin (sample_env ''Text/HTML'') demo_request
          (snd (ai_path_fragment (sample_env ''Text/HTML'') demo_request
             (log_visit (sample_env ''Text/HTML'') demo_context demo_request start))))))
       (of_request demo_request)"
proof -
  let ?e = "sample_env ''Text/HTML''"
  let ?s0 = "log_visit ?e demo_context demo_request start"
  let ?s1 = "snd (ai_path_fragment ?e demo_request ?s0)"
  let ?s2 = "snd (ai_path_origin ?e demo_request ?s1)"
  let ?r = "demo_response 200 [(''content-type'', ''Text/HTML'')] ''<p>X</p>''"
  have h1: "reaches_ai_path ?e demo_request" by code_simp
  have f2: "fst (ai_path_fragment ?e demo_request ?s0) = Inr alt_document" by code_simp
  have f3: "fst (ai_path_origin ?e demo_request ?s1) = Inr ?r" by code_simp
  have h4: "\<not> str_includes (or_else (hget (resp_headers ?r) ''content-type'') []) ''text/html''"
    by code_simp
  have ne: "alt_document \<noteq> []" by code_simp
  have h2: "ai_path_fragment ?e demo_request ?s0 = (Inr alt_document, ?s1)"
    using f2 by (simp add: prod_eq_iff)
  have h3: "ai_path_origin ?e demo_request ?s1 = (Inr ?r, ?s2)"
    using f3 by (simp add: prod_eq_iff)
  from non_html_falls_back [OF h1 h2 h3 h4] f2 f3 h1 ne show ?thesis
    by blast
qed

section \<open>The telemetry POST\<close>

lemma console_frame:
  "console_log a (st\<lparr>console_detached := x\<rparr>) = (console_log a st)\<lparr>console_detached := x\<rparr>"
  "console_error a (st\<lparr>console_detached := x\<rparr>) = (console_error a st)\<lparr>console_detached := x\<rparr>"
  by (simp_all add: console_log_def console_error_def)

lemma fetch_frame:
  "fetch e r (st\<lparr>console_detached := x\<rparr>) =
   apsnd (\<lambda>s. s\<lparr>console_detached := x\<rparr>) (fetch e r st)"
  by (simp add: fetch_def)

lemma fetchWithHost_frame:
  "fetchWithHost e origin u req fixHost logURL b (st\<lparr>console_detached := x\<rparr>) =
   apsnd (\<lambda>s. s\<lparr>console_detached := x\<rparr>) (fetchWithHost e origin u req fixHost logURL b st)"
  by (simp add: fetchWithHost_def Let_def fetch_frame console_frame split: sum.splits)

lemma ai_path_fragment_frame:
  "ai_path_fragment e request (st\<lparr>console_detached := x\<rparr>) =
   apsnd (\<lambda>s. s\<lparr>console_detached := x\<rparr>) (ai_path_fragment e request st)"
proof (cases "fetchWithHost e (ALT_ORIGIN e) (req_url request) request False True False st")
  case (Pair r s)
  then show ?thesis
    by (cases r)
       (simp_all add: ai_path_fragment_def Let_def fetchWithHost_frame console_frame
          split: sum.splits)
qed

lemma ai_path_origin_frame:
  "ai_path_origin e request (st\<lparr>console_detached := x\<rparr>) =
   apsnd (\<lambda>s. s\<lparr>console_detached := x\<rparr>) (ai_path_origin e request st)"
proof (cases "fetchWithHost e (url_origin (req_url request)) (req_url request) request
                True False True st")
  case (Pair r s)
  then show ?thesis
    by (cases r)
       (simp_all add: ai_path_origin_def Let_def fetchWithHost_frame console_frame
          split: sum.splits)
qed

lemma ai_path_respond_frame:
  "ai_path_respond e request injectedHTML origResp (st\<lparr>console_detached := x\<rparr>) =
   apsnd (\<lambda>s. s\<lparr>console_detached := x\<rparr>) (ai_path_respond e request injectedHTML origResp st)"
  by (simp add: ai_path_respond_def Let_def fetch_frame console_frame
      split: sum.splits prod.splits)

lemma ai_path_frame:
  "ai_path e request (st\<lparr>console_detached := x\<rparr>) =
   apsnd (\<lambda>s. s\<lparr>console_detached := x\<rparr>) (ai_path e request st)"
proof (cases "ai_path_fragment e request st")
  case (Pair r s)
  show ?thesis
  proof (cases r)
    case (Inl err)
    with Pair show ?thesis by (simp add: ai_path_def ai_path_fragment_frame)
  next
    case (Inr injectedHTML)
    show ?thesis
    proof (cases "ai_path_origin e request s")
      case (Pair r2 s2)
      with Inr \<open>ai_path_fragment e request st = (r, s)\<close> show ?thesis
        by (cases r2)
           (simp_all add: ai_path_def ai_path_fragment_frame ai_path_origin_frame
              ai_path_respond_frame)
    qed
  qed
qed

lemma not_telemetry_of_request: "\<not> is_telemetry (of_request request)"
  by (simp add: is_telemetry_def of_request_def split: option.splits)

lemma not_telemetry_init: "\<not> is_telemetry (fetchWithHost_init origin proxied req fixHost b)"
  by (simp add: is_telemetry_def fetchWithHost_init_def Let_def split: option.splits)

lemma fetch_cong:
  assumes "\<forall>h r. \<not> is_telemetry r \<longrightarrow> n h r = net_fetch e h r" and "\<not> is_telemetry r"
  shows "fetch (e\<lparr>net_fetch := n, detached_settles := p\<rparr>) r st = fetch e r st"
  using assms by (simp add: fetch_def)

lemma fetchWithHost_cong:
  assumes "\<forall>h r. \<not> is_telemetry r \<longrightarrow> n h r = net_fetch e h r"
  shows "fetchWithHost (e\<lparr>net_fetch := n, detached_settles := p\<rparr>) origin u req fixHost logURL b st =
         fetchWithHost e origin u req fixHost logURL b st"
  by (simp add: fetchWithHost_def Let_def fetch_cong [OF assms not_telemetry_init]
      split: sum.splits)

lemma config_cong:
  "ORGANIZATION_ID (e\<lparr>net_fetch := n, detached_settles := p\<rparr>) = ORGANIZATION_ID e"
  "ALT_ORIGIN (e\<lparr>net_fetch := n, detached_settles := p\<rparr>) = ALT_ORIGIN e"
  "reaches_ai_path (e\<lparr>net_fetch := n, detached_settles := p\<rparr>) request = reaches_ai_path e request"
  "postPayload_of (e\<lparr>net_fetch := n, detached_settles := p\<rparr>) ctx request = postPayload_of e ctx request"
  "new_Response (e\<lparr>net_fetch := n, detached_settles := p\<rparr>) = new_Response e"
  "finalizeResponse (e\<lparr>net_fetch := n, detached_settles := p\<rparr>) = finalizeResponse e"
  by (simp_all add: ORGANIZATION_ID_def ALT_ORIGIN_def reaches_ai_path_def postPayload_of_def
      new_Response_def finalizeResponse_def fun_eq_iff)

lemma ai_path_fragment_cong:
  assumes "\<forall>h r. \<not> is_telemetry r \<longrightarrow> n h r = net_fetch e h r"
  shows "ai_path_fragment (e\<lparr>net_fetch := n, detached_settles := p\<rparr>) request st =
         ai_path_fragment e request st"
  by (simp add: ai_path_fragment_def Let_def fetchWithHost_cong [OF assms] config_cong
      split: prod.splits sum.splits)

lemma ai_path_origin_cong:
  assumes "\<forall>h r. \<not> is_telemetry r \<longrightarrow> n h r = net_fetch e h r"
  shows "ai_path_origin (e\<lparr>net_fetch := n, detached_settles := p\<rparr>) request st =
         ai_path_origin e request st"
  by (simp add: ai_path_origin_def Let_def fetchWithHost_cong [OF assms]
      split: prod.splits sum.splits)

lemma ai_path_respond_cong:
  assumes "\<forall>h r. \<not> is_telemetry r \<longrightarrow> n h r = net_fetch e h r"
  shows "ai_path_respond (e\<lparr>net_fetch := n, detached_settles := p\<rparr>) request injectedHTML origResp st =
         ai_path_respond e request injectedHTML origResp st"
  by (simp add: ai_path_respond_def Let_def fetch_cong [OF assms not_telemetry_of_request]
      config_cong split: prod.splits sum.splits)

lemma ai_path_cong:
  assumes "\<forall>h r. \<not> is_telemetry r \<longrightarrow> n h r = net_fetch e h r"
  shows "ai_path (e\<lparr>net_fetch := n, detached_settles := p\<rparr>) request st = ai_path e request st"
  by (simp add: ai_path_def ai_path_fragment_cong [OF assms] ai_path_origin_cong [OF assms]
      ai_path_respond_cong [OF assms] split: prod.splits sum.splits)

lemma log_visit_visible:
  "fetched (log_visit e ctx request st) =
     fetched st @ (if isAIVisitor (request_ua request) (request_qsAgent request)
                   then [telemetry_request (postPayload_of e ctx request)] else [])"
  "console (log_visit e ctx request st) =
     console st @
     [Console_log [Str ''ORGANIZATION_ID:'', Str (or_else (Some (ORGANIZATION_ID e)) ''NOT SET'')],
      Console_log [Str ''User-Agent:'', Str (request_ua request)],
      Console_log [Str ''Current webserver origin:'', Str (url_origin (req_url request))]] @
     (if isAIVisitor (request_ua request) (request_qsAgent request)
      then [Console_log [Str (botType_of (request_ua request) (request_qsAgent request))]]
      else [])"
  "bodyUsed (log_visit e ctx request st) = bodyUsed st"
  "console_detached (log_visit e ctx request st) =
     console_detached st @
     (if isAIVisitor (request_ua request) (request_qsAgent request)
      then (case detached_outcome e (telemetry_request (postPayload_of e ctx request)) st of
              Some (Inl err) \<Rightarrow> [telemetry_catch err]
            | _ \<Rightarrow> [])
      else [])"
  "state.more (log_visit e ctx request st) = state.more st"
  by (simp_all add: log_visit_def Let_def fetch_detached_def console_log_def detached_outcome_def
      split: option.splits sum.splits)

lemma log_visit_cong:
  "log_visit (e\<lparr>net_fetch := n, detached_settles := p\<rparr>) ctx request st =
   (log_visit e ctx request st)\<lparr>console_detached :=
      console_detached (log_visit (e\<lparr>net_fetch := n, detached_settles := p\<rparr>) ctx request st)\<rparr>"
  by (rule state.equality) (simp_all add: log_visit_visible(1,2,3,5) config_cong)

lemma handler_cong:
  assumes "\<forall>h r. \<not> is_telemetry r \<longrightarrow> n h r = net_fetch e h r"
  shows "\<exists>x. handler (e\<lparr>net_fetch := n, detached_settles := p\<rparr>) ctx request st =
              apsnd (\<lambda>s. s\<lparr>console_detached := x\<rparr>) (handler e ctx request st)"
proof -
  let ?e = "e\<lparr>net_fetch := n, detached_settles := p\<rparr>"
  note fc = fetch_cong [OF assms not_telemetry_of_request]
  have keep: "apsnd (\<lambda>s. s\<lparr>console_detached := console_detached (snd y)\<rparr>) y = y" for y :: "'a \<times> state"
    by (cases y) simp
  show ?thesis
  proof (cases "reaches_ai_path e request")
    case False
    show ?thesis
    proof (cases "isAIVisitor (request_ua request) (request_qsAgent request)")
      case True
      with False have "handler ?e ctx request st = handler e ctx request st"
        by (auto simp: handler_def reaches_ai_path_def Let_def fc config_cong)
      then show ?thesis using keep [of "handler e ctx request st"] by metis
    next
      case nai: False
      let ?x = "console_detached (log_visit ?e ctx request st)"
      have l: "log_visit ?e ctx request st = (log_visit e ctx request st)\<lparr>console_detached := ?x\<rparr>"
        by (rule log_visit_cong)
      have d: "log_visit ?e ctx request st = log_visit e ctx request st"
        by (rule state.equality) (simp_all add: log_visit_visible config_cong nai)
      have "handler ?e ctx request st = handler e ctx request st"
        using nai by (simp add: handler_def Let_def fc config_cong d)
      then show ?thesis using keep [of "handler e ctx request st"] by metis
    qed
  next
    case True
    let ?x = "console_detached (log_visit ?e ctx request st)"
    let ?s = "log_visit e ctx request st"
    have r: "reaches_ai_path ?e request" using True by (simp add: config_cong)
    have l: "log_visit ?e ctx request st = ?s\<lparr>console_detached := ?x\<rparr>"
      by (rule log_visit_cong)
    have a: "ai_path ?e request (log_visit ?e ctx request st) =
             apsnd (\<lambda>s. s\<lparr>console_detached := ?x\<rparr>) (ai_path e request ?s)"
      by (subst l) (simp only: ai_path_cong [OF assms] ai_path_frame)
    have "handler ?e ctx request st =
          apsnd (\<lambda>s. s\<lparr>console_detached := ?x\<rparr>) (handler e ctx request st)"
      unfolding handler_ai [OF r] handler_ai [OF True] a
      by (cases "ai_path e request ?s")
         (auto simp: fc fetch_frame console_frame split: completion.splits)
    then show ?thesis by blast
  qed
qed

lemma console_detached_fetch [simp]:
  "console_detached (snd (fetch e r st)) = console_detached st"
  by (simp add: fetch_def)

lemma console_detached_console [simp]:
  "console_detached (console_log a st) = console_detached st"
  "console_detached (console_error a st) = console_detached st"
  by (simp_all add: console_log_def console_error_def)

lemma console_detached_ai_path [simp]:
  "console_detached (snd (ai_path e request st)) = console_detached st"
proof -
  have "ai_path e request st =
        apsnd (\<lambda>s. s\<lparr>console_detached := console_detached st\<rparr>) (ai_path e request st)"
    using ai_path_frame [where e = e and request = request and st = st and x = "console_detached st"]
    by simp
  then have "snd (ai_path e request st) =
             (snd (ai_path e request st))\<lparr>console_detached := console_detached st\<rparr>"
    by (metis snd_apsnd)
  then show ?thesis by (metis state.select_convs(4) state.surjective state.update_convs(4))
qed

lemma console_detached_handler:
  "console_detached (snd (handler e ctx request st)) =
     console_detached st @
     (if reaches_ai_path e request
      then (case detached_outcome e (telemetry_request (postPayload_of e ctx request)) st of
              Some (Inl err) \<Rightarrow> [telemetry_catch err]
            | _ \<Rightarrow> [])
      else [])"
proof (cases "reaches_ai_path e request")
  case True
  then have ai: "isAIVisitor (request_ua request) (request_qsAgent request)"
    by (simp add: reaches_ai_path_def)
  have "console_detached (snd (handler e ctx request st)) =
        console_detached (log_visit e ctx request st)"
    unfolding handler_ai [OF True]
    using console_detached_ai_path [of e request "log_visit e ctx request st"]
    by (cases "ai_path e request (log_visit e ctx request st)")
       (auto split: completion.splits)
  then show ?thesis using True ai by (simp add: log_visit_visible(4))
next
  case False
  then show ?thesis
    by (auto simp: handler_def reaches_ai_path_def Let_def log_visit_visible(4))
qed

text \<open>
  C9. Take two runs of the handler on the same request that differ only in what becomes
  of the telemetry POST: the network of the second run may answer the requests that
  carry a telemetry record in any other way (with a response, with a rejection), and its
  platform may or may not let the promise of the POST settle. Both runs give the same
  response (or the same rejection), hand the same requests to \<^verbatim>\<open>fetch\<close> and write
  the same lines from the handler. The outcome of the POST shows in one place only: when
  its promise is rejected, the callback of \<^verbatim>\<open>catch\<close> writes its line to the console.
\<close>

theorem telemetry_outcome_unobserved:
  assumes "\<forall>h r. \<not> is_telemetry r \<longrightarrow> n h r = net_fetch e h r"
  shows "fst (handler (e\<lparr>net_fetch := n, detached_settles := p\<rparr>) ctx request st) =
           fst (handler e ctx request st) \<and>
         fetched (snd (handler (e\<lparr>net_fetch := n, detached_settles := p\<rparr>) ctx request st)) =
           fetched (snd (handler e ctx request st)) \<and>
         console (snd (handler (e\<lparr>net_fetch := n, detached_settles := p\<rparr>) ctx request st)) =
           console (snd (handler e ctx request st)) \<and>
         bodyUsed (snd (handler (e\<lparr>net_fetch := n, detached_settles := p\<rparr>) ctx request st)) =
           bodyUsed (snd (handler e ctx request st)) \<and>
         console_detached (snd (handler e ctx request st)) =
           console_detached st @
           (if reaches_ai_path e request
            then (case detached_outcome e (telemetry_request (postPayload_of e ctx request)) st of
                    Some (Inl err) \<Rightarrow> [telemetry_catch err]
                  | _ \<Rightarrow> [])
            else [])"
proof -
  obtain x where "handler (e\<lparr>net_fetch := n, detached_settles := p\<rparr>) ctx request st =
      apsnd (\<lambda>s. s\<lparr>console_detached := x\<rparr>) (handler e ctx request st)"
    using handler_cong [OF assms] by blast
  then show ?thesis by (simp add: console_detached_handler)
qed

theorem telemetry_outcome_unobserved_witness:
  "fst (handler (demo_env\<lparr>net_fetch := telemetry_down, detached_settles := True\<rparr>)
          demo_context demo_request start) =
     fst (handler demo_env demo_context demo_request start) \<and>
   fst (handler (demo_env\<lparr>net_fetch := telemetry_down, detached_settles := False\<rparr>)
          demo_context demo_request start) =
     fst (handler demo_env demo_context demo_request start) \<and>
   reaches_ai_path demo_env demo_request \<and>
   detached_outcome (demo_env\<lparr>net_fetch := telemetry_down, detached_settles := True\<rparr>)
     (telemetry_request (postPayload_of demo_env demo_context demo_request)) start =
     Some (Inl (NetworkError ''down'')) \<and>
   detached_outcome (demo_env\<lparr>net_fetch := telemetry_down, detached_settles := False\<rparr>)
     (telemetry_request (postPayload_of demo_env demo_context demo_request)) start = None \<and>
   detached_outcome demo_env
     (telemetry_request (postPayload_of demo_env demo_context demo_request)) start =
     Some (Inr (demo_response 200 [(''content-type'', ''text/html'')] ''<p>X</p>''))"
proof -
  have h: "\<forall>h r. \<not> is_telemetry r \<longrightarrow> telemetry_down h r = net_fetch demo_env h r"
    by (simp add: telemetry_down_def)
  note t = telemetry_outcome_unobserved [OF h, of _ demo_context demo_request start]
  have a: "fst (handler (demo_env\<lparr>net_fetch := telemetry_down, detached_settles := True\<rparr>)
          demo_context demo_request start) =
     fst (handler demo_env demo_context demo_request start)"
    using t [of True] by (rule conjunct1)
  have b: "fst (handler (demo_env\<lparr>net_fetch := telemetry_down, detached_settles := False\<rparr>)
          demo_context demo_request start) =
     fst (handler demo_env demo_context demo_request start)"
    using t [of False] by (rule conjunct1)
  have c: "reaches_ai_path demo_env demo_request" by code_simp
  have d: "detached_outcome (demo_env\<lparr>net_fetch := telemetry_down, detached_settles := True\<rparr>)
     (telemetry_request (postPayload_of demo_env demo_context demo_request)) start =
     Some (Inl (NetworkError ''down''))"
    by (simp add: detached_outcome_def telemetry_down_def is_telemetry_def telemetry_request_def)
  have e: "detached_outcome (demo_env\<lparr>net_fetch := telemetry_down, detached_settles := False\<rparr>)
     (telemetry_request (postPayload_of demo_env demo_context demo_request)) start = None"
    by (simp add: detached_outcome_def)
  have f: "detached_outcome demo_env
     (telemetry_request (postPayload_of demo_env demo_context demo_request)) start =
     Some (Inr (demo_response 200 [(''content-type'', ''text/html'')] ''<p>X</p>''))"
    by (simp add: detached_outcome_def demo_env_def)
  show ?thesis using a b c d e f by blast
qed

section \<open>Errors of the AI path\<close>

text \<open>
  C8 fails on a request with a body. \<open>fetchWithHost\<close> hands the body stream of the
  request to its \<^verbatim>\<open>fetch\<close> (line 268), so after the fetch of the ALT origin the
  stream is used up: the fetch of the webserver rejects with a \<^verbatim>\<open>TypeError\<close>, the
  \<^verbatim>\<open>catch\<close> of line 208 takes it, and its \<^verbatim>\<open>fetch(request)\<close> rejects in the same
  way. For a \<^verbatim>\<open>POST\<close> of an AI visitor the handler rejects, on a network that
  answers every request and on one where only the fetches of \<open>fetchWithHost\<close> fail alike,
  while the same request from a browser gets the response of the webserver.
\<close>

theorem consumed_body_breaks_fallback:
  "reaches_ai_path demo_env post_request \<and>
   fst (ai_path demo_env post_request (log_visit demo_env demo_context post_request start)) =
     Thrown TypeError \<and>
   fst (handler demo_env demo_context post_request start) = Inl TypeError \<and>
   fst (handler demo_env demo_context browser_post_request start) =
     Inr (demo_response 200 [(''content-type'', ''text/html'')] ''<p>X</p>'') \<and>
   fst (ai_path failing_env post_request (log_visit failing_env demo_context post_request start)) =
     Thrown (NetworkError ''down'') \<and>
   fst (handler failing_env demo_context post_request start) = Inl TypeError \<and>
   fst (handler failing_env demo_context browser_post_request start) =
     Inr (demo_response 200 [] ''<p>X</p>'')"
  by code_simp

section \<open>The redirect\<close>

lemma truthy_or_else: "truthy a = (or_else a [] \<noteq> [])"
  by (simp add: truthy_def or_else_def split: option.splits)

lemma fetchWithHost_init_fields:
  "fr_url (fetchWithHost_init origin proxied req fixHost b) = url_href proxied"
  "fr_redirect (fetchWithHost_init origin proxied req fixHost b) = Manual"
  "fr_method (fetchWithHost_init origin proxied req fixHost b) = req_method req"
  "hget (fr_headers (fetchWithHost_init origin proxied req True b)) ''host'' =
     Some (str_replace origin ''https://'' [])"
  by (simp_all add: fetchWithHost_init_def Let_def)

lemma ai_path_origin_not_followed:
  assumes "fetchWithHost e (url_origin (req_url request)) (req_url request) request
             True False True st1 = (Inr first, st2)"
    and "300 \<le> resp_status first" and "resp_status first < 400"
    and "or_else (hget (resp_headers first) ''location'') [] = []"
  shows "ai_path_origin e request st1 = (Inr first, st2)"
  using assms by (simp add: ai_path_origin_def Let_def truthy_or_else)

lemma ai_path_origin_unresolved:
  assumes "fetchWithHost e (url_origin (req_url request)) (req_url request) request
             True False True st1 = (Inr first, st2)"
    and "300 \<le> resp_status first" and "resp_status first < 400"
    and "loc = or_else (hget (resp_headers first) ''location'') []" and "loc \<noteq> []"
    and "new_URL_base e loc (url_origin (req_url request)) = Inl err"
  shows "ai_path_origin e request st1 =
           (Inl err, console_log [Str (''Current webserver redirect '' @ arrow), Str loc] st2)"
  using assms by (simp add: ai_path_origin_def Let_def truthy_or_else)

lemma ai_path_origin_redirect:
  assumes "fetchWithHost e (url_origin (req_url request)) (req_url request) request
             True False True st1 = (Inr first, st2)"
    and "300 \<le> resp_status first" and "resp_status first < 400"
    and "loc = or_else (hget (resp_headers first) ''location'') []" and "loc \<noteq> []"
    and "new_URL_base e loc (url_origin (req_url request)) = Inr canonURL"
  shows "ai_path_origin e request st1 =
           fetchWithHost e (url_origin canonURL) canonURL request True False
             (url_origin canonURL = url_origin (req_url request))
             (console_log [Str (''Current webserver redirect '' @ arrow), Str loc] st2)"
  using assms by (simp add: ai_path_origin_def Let_def truthy_or_else)

lemma fetchWithHost_Inl:
  assumes "new_URL e (origin @ url_pathname u @ url_search u) = Inl err"
  shows "fetchWithHost e origin u req fixHost logURL b st = (Inl err, st)"
  using assms by (simp add: fetchWithHost_def)

lemma fetchWithHost_Inr:
  assumes "new_URL e (origin @ url_pathname u @ url_search u) = Inr proxied"
  shows "fetchWithHost e origin u req fixHost False b st =
           fetch e (fetchWithHost_init origin proxied req fixHost b) st"
  using assms by (simp add: fetchWithHost_def)

lemma ai_path_uses_origin_response:
  assumes "ai_path_fragment e request st0 = (Inr injectedHTML, st)"
    and "fst (ai_path_origin e request st) = Inr second"
  shows "ai_path e request st0 =
           ai_path_respond e request injectedHTML second (snd (ai_path_origin e request st))"
  using assms by (cases "ai_path_origin e request st") (simp add: ai_path_def)

lemma ai_path_origin_thrown:
  assumes "ai_path_fragment e request st0 = (Inr injectedHTML, st)"
    and "ai_path_origin e request st = (Inl err, st')"
  shows "ai_path e request st0 = (Thrown err, st')"
  using assms by (simp add: ai_path_def)

lemma first_response_no_stream:
  assumes "ai_path_fragment e request st0 = (Inr injectedHTML, st1)"
    and "fetchWithHost e origin u request fixHost logURL b st1 = (Inr first, st2)"
  shows "request_body request = None"
proof (rule ccontr)
  assume b: "request_body request \<noteq> None"
  have "bodyUsed st1" using ai_path_fragment_Inr_bodyUsed [OF assms(1) b] .
  then have "fst (fetchWithHost e origin u request fixHost logURL b st1) \<noteq> Inr first"
    using b by (rule fetchWithHost_used)
  with assms(2) show False by simp
qed

lemma fetched_fetchWithHost_Inr:
  assumes "fetchWithHost e origin u req fixHost logURL b st = (Inr x, st')"
  shows "\<exists>r. fetched st' = fetched st @ [r]"
  using assms by (auto simp: fetchWithHost_def fetch_def Let_def split: sum.splits if_splits)

text \<open>
  C5, as the specification states it, fails: a redirect whose \<^verbatim>\<open>Location\<close> header
  is present and empty is not followed. The one fetch of the webserver is all that is
  issued, and its response, the redirect itself, is what the decision is made on.
\<close>

theorem empty_location_not_followed:
  "resp_status empty_location_response = 302 \<and>
   hget (resp_headers empty_location_response) ''Location'' = Some [] \<and>
   fst (ai_path_origin empty_location_env demo_request start) = Inr empty_location_response \<and>
   length (issued start (snd (ai_path_origin empty_location_env demo_request start))) = 1"
  by code_simp

text \<open>
  C5, amended. Let the webserver answer an AI visitor with a status from 300 to 399,
  and let \<open>loc\<close> be the value of its \<^verbatim>\<open>Location\<close> header, empty when there is none.
  \<^item> When \<open>loc\<close> is empty the redirect is not followed: no further request is made and
    the choice between injection and \<^verbatim>\<open>fetch(request)\<close> is made on the first response.
  \<^item> When \<open>loc\<close> does not resolve against the origin of the webserver, or no URL can be
    built from the origin, path and query of what it resolves to, the \<^verbatim>\<open>try\<close> block
    throws without a further request to the webserver, and the handler answers with
    \<^verbatim>\<open>fetch(request)\<close> of the unmodified request.
  \<^item> Otherwise the handler hands exactly one more request to \<^verbatim>\<open>fetch\<close>: for that
    URL, with manual redirect handling and with the \<^verbatim>\<open>Host\<close> header set from the
    resolved origin. The response to it, a redirect or not, is the one the handler goes
    on with: the choice between injection and \<^verbatim>\<open>fetch(request)\<close> is made on it and
    not on the first one.
\<close>

theorem one_redirect_hop:
  assumes "reaches_ai_path e request"
    and "ai_path_fragment e request (log_visit e ctx request st) = (Inr injectedHTML, st1)"
    and "fetchWithHost e (url_origin (req_url request)) (req_url request) request
             True False True st1 = (Inr first, st2)"
    and "300 \<le> resp_status first" and "resp_status first < 400"
    and "loc = or_else (hget (resp_headers first) ''location'') []"
    and "st3 = console_log [Str (''Current webserver redirect '' @ arrow), Str loc] st2"
    and "second_request = fetchWithHost_init (url_origin canonURL) proxied request True
           (url_origin canonURL = url_origin (req_url request))"
  shows "(loc = [] \<longrightarrow>
            ai_path_origin e request st1 = (Inr first, st2) \<and>
            ai_path e request (log_visit e ctx request st) =
              ai_path_respond e request injectedHTML first st2) \<and>
         (loc \<noteq> [] \<and> new_URL_base e loc (url_origin (req_url request)) = Inl err \<longrightarrow>
            ai_path_origin e request st1 = (Inl err, st3) \<and>
            handler e ctx request st =
              fetch e (of_request request)
                (console_error [Str ''AI path error; falling back to normal fetch:'', Err err]
                   st3) \<and>
            fst (handler e ctx request st) = net_fetch e (fetched st2) (of_request request)) \<and>
         (loc \<noteq> [] \<and> new_URL_base e loc (url_origin (req_url request)) = Inr canonURL \<and>
          new_URL e (url_origin canonURL @ url_pathname canonURL @ url_search canonURL) = Inl err \<longrightarrow>
            ai_path_origin e request st1 = (Inl err, st3) \<and>
            handler e ctx request st =
              fetch e (of_request request)
                (console_error [Str ''AI path error; falling back to normal fetch:'', Err err]
                   st3) \<and>
            fst (handler e ctx request st) = net_fetch e (fetched st2) (of_request request)) \<and>
         (loc \<noteq> [] \<and> new_URL_base e loc (url_origin (req_url request)) = Inr canonURL \<and>
          new_URL e (url_origin canonURL @ url_pathname canonURL @ url_search canonURL) =
            Inr proxied \<longrightarrow>
            issued st2 (snd (ai_path_origin e request st1)) = [second_request] \<and>
            fr_url second_request = url_href proxied \<and>
            fr_redirect second_request = Manual \<and>
            hget (fr_headers second_request) ''host'' =
              Some (str_replace (url_origin canonURL) ''https://'' []) \<and>
            fst (ai_path_origin e request st1) = net_fetch e (fetched st2) second_request) \<and>
         (loc \<noteq> [] \<and> new_URL_base e loc (url_origin (req_url request)) = Inr canonURL \<and>
          new_URL e (url_origin canonURL @ url_pathname canonURL @ url_search canonURL) =
            Inr proxied \<and>
          net_fetch e (fetched st2) second_request = Inr second \<longrightarrow>
            ai_path e request (log_visit e ctx request st) =
              ai_path_respond e request injectedHTML second (snd (ai_path_origin e request st1)))"
proof -
  have nb: "request_body request = None"
    using first_response_no_stream [OF assms(2,3)] .
  have plain: "\<not> uses_stream (of_request request)" "\<not> uses_stream second_request"
    using nb by (simp_all add: uses_stream_of_request uses_stream_init assms(8))
  have thrown: "handler e ctx request st =
              fetch e (of_request request)
                (console_error [Str ''AI path error; falling back to normal fetch:'', Err x]
                   st3) \<and>
            fst (handler e ctx request st) = net_fetch e (fetched st2) (of_request request)"
    if "ai_path_origin e request st1 = (Inl x, st3)" for x
    using handler_thrown [OF assms(1) ai_path_origin_thrown [OF assms(2) that]] plain(1)
    by (simp add: fetch_plain assms(7))
  have c1: "loc = [] \<longrightarrow>
            ai_path_origin e request st1 = (Inr first, st2) \<and>
            ai_path e request (log_visit e ctx request st) =
              ai_path_respond e request injectedHTML first st2"
  proof
    assume "loc = []"
    then have o: "ai_path_origin e request st1 = (Inr first, st2)"
      using ai_path_origin_not_followed [OF assms(3-5)] assms(6) by simp
    then show "ai_path_origin e request st1 = (Inr first, st2) \<and>
            ai_path e request (log_visit e ctx request st) =
              ai_path_respond e request injectedHTML first st2"
      using ai_path_uses_origin_response [OF assms(2), of first] by simp
  qed
  have c2: "ai_path_origin e request st1 = (Inl err, st3) \<and>
            handler e ctx request st =
              fetch e (of_request request)
                (console_error [Str ''AI path error; falling back to normal fetch:'', Err err]
                   st3) \<and>
            fst (handler e ctx request st) = net_fetch e (fetched st2) (of_request request)"
    if "loc \<noteq> []" "new_URL_base e loc (url_origin (req_url request)) = Inl err"
  proof -
    have "ai_path_origin e request st1 = (Inl err, st3)"
      using ai_path_origin_unresolved [OF assms(3-6) that] assms(7) by simp
    then show ?thesis using thrown [of err] by blast
  qed
  have c3: "ai_path_origin e request st1 = (Inl err, st3) \<and>
            handler e ctx request st =
              fetch e (of_request request)
                (console_error [Str ''AI path error; falling back to normal fetch:'', Err err]
                   st3) \<and>
            fst (handler e ctx request st) = net_fetch e (fetched st2) (of_request request)"
    if "loc \<noteq> []" "new_URL_base e loc (url_origin (req_url request)) = Inr canonURL"
      "new_URL e (url_origin canonURL @ url_pathname canonURL @ url_search canonURL) = Inl err"
  proof -
    have "ai_path_origin e request st1 = (Inl err, st3)"
      using ai_path_origin_redirect [OF assms(3-6) that(1,2)] assms(7)
      by (simp add: fetchWithHost_Inl [OF that(3)])
    then show ?thesis using thrown [of err] by blast
  qed
  have o4: "ai_path_origin e request st1 = fetch e second_request st3"
    if "loc \<noteq> []" "new_URL_base e loc (url_origin (req_url request)) = Inr canonURL"
      "new_URL e (url_origin canonURL @ url_pathname canonURL @ url_search canonURL) = Inr proxied"
    using ai_path_origin_redirect [OF assms(3-6) that(1,2)] assms(7,8)
    by (simp add: fetchWithHost_Inr [OF that(3)])
  have c4: "issued st2 (snd (ai_path_origin e request st1)) = [second_request] \<and>
            fr_url second_request = url_href proxied \<and>
            fr_redirect second_request = Manual \<and>
            hget (fr_headers second_request) ''host'' =
              Some (str_replace (url_origin canonURL) ''https://'' []) \<and>
            fst (ai_path_origin e request st1) = net_fetch e (fetched st2) second_request"
    if "loc \<noteq> []" "new_URL_base e loc (url_origin (req_url request)) = Inr canonURL"
      "new_URL e (url_origin canonURL @ url_pathname canonURL @ url_search canonURL) = Inr proxied"
    using o4 [OF that] plain(2)
    by (simp add: fetch_plain issued_def assms(7) fetchWithHost_init_fields assms(8))
  have c5: "ai_path e request (log_visit e ctx request st) =
              ai_path_respond e request injectedHTML second (snd (ai_path_origin e request st1))"
    if "loc \<noteq> []" "new_URL_base e loc (url_origin (req_url request)) = Inr canonURL"
      "new_URL e (url_origin canonURL @ url_pathname canonURL @ url_search canonURL) = Inr proxied"
      "net_fetch e (fetched st2) second_request = Inr second"
  proof -
    have "fst (ai_path_origin e request st1) = Inr second"
      using c4 [OF that(1-3)] that(4) by simp
    then show ?thesis by (rule ai_path_uses_origin_response [OF assms(2)])
  qed
  show ?thesis using c1 c2 c3 c4 c5 by blast
qed

theorem one_redirect_hop_witness:
  "fst (ai_path_origin redirect_env demo_request
          (snd (ai_path_fragment redirect_env demo_request
             (log_visit redirect_env demo_context demo_request start)))) =
     Inr moved_again_response \<and>
   resp_status moved_again_response = 301 \<and>
   length (issued
     (snd (fetchWithHost redirect_env (url_origin (req_url demo_request)) (req_url demo_request)
          demo_request True False True
          (snd (ai_path_fragment redirect_env demo_request
             (log_visit redirect_env demo_context demo_request start)))))
     (snd (ai_path_origin redirect_env demo_request
          (snd (ai_path_fragment redirect_env demo_request
             (log_visit redirect_env demo_context demo_request start)))))) = 1 \<and>
   ai_path redirect_env demo_request (log_visit redirect_env demo_context demo_request start) =
     ai_path_respond redirect_env demo_request alt_document moved_again_response
       (snd (ai_path_origin redirect_env demo_request
          (snd (ai_path_fragment redirect_env demo_request
             (log_visit redirect_env demo_context demo_request start))))) \<and>
   fst (ai_path_origin empty_location_env demo_request
          (snd (ai_path_fragment empty_location_env demo_request
             (log_visit empty_location_env demo_context demo_request start)))) =
     Inr empty_location_response \<and>
   fst (ai_path_origin unresolved_env demo_request
          (snd (ai_path_fragment unresolved_env demo_request
             (log_visit unresolved_env demo_context demo_request start)))) = Inl TypeError \<and>
   fst (handler unresolved_env demo_context demo_request start) = Inr moved_response \<and>
   fst (ai_path_origin untargetable_env demo_request
          (snd (ai_path_fragment untargetable_env demo_request
             (log_visit untargetable_env demo_context demo_request start)))) = Inl TypeError \<and>
   fst (handler untargetable_env demo_context demo_request start) = Inr moved_response"
proof -
  let ?o = "url_origin (req_url demo_request)"
  let ?log = "\<lambda>loc. console_log [Str (''Current webserver redirect '' @ arrow), Str loc]"
  let ?prox = "demo_url\<lparr>url_href := url_origin moved_url @ url_pathname moved_url @
              url_search moved_url\<rparr>"
  let ?again = "fetchWithHost_init (url_origin moved_url) ?prox demo_request True
               (url_origin moved_url = ?o)"
  have st: "300 \<le> resp_status moved_response" "resp_status moved_response < 400"
    "300 \<le> resp_status empty_location_response" "resp_status empty_location_response < 400"
    "resp_status moved_again_response = 301"
    by code_simp+
  have loc: "''/q'' = or_else (hget (resp_headers moved_response) ''location'') []"
    "[] = or_else (hget (resp_headers empty_location_response) ''location'') []"
    by code_simp+

  let ?e = redirect_env
  let ?f1 = "ai_path_fragment ?e demo_request (log_visit ?e demo_context demo_request start)"
  let ?f2 = "fetchWithHost ?e ?o (req_url demo_request) demo_request True False True (snd ?f1)"
  have a1: "reaches_ai_path ?e demo_request" by code_simp
  have "fst ?f1 = Inr alt_document" by code_simp
  then have a2: "?f1 = (Inr alt_document, snd ?f1)" by (simp add: prod_eq_iff)
  have "fst ?f2 = Inr moved_response" by code_simp
  then have a3: "?f2 = (Inr moved_response, snd ?f2)" by (simp add: prod_eq_iff)
  have a4: "new_URL_base ?e ''/q'' ?o = Inr moved_url"
    by (simp add: redirect_env_def)
  have a5: "new_URL ?e (url_origin moved_url @ url_pathname moved_url @ url_search moved_url) =
            Inr ?prox"
    by (simp add: redirect_env_def demo_env_def)
  have a6: "net_fetch ?e (fetched (snd ?f2)) ?again = Inr moved_again_response"
    by code_simp
  note a = one_redirect_hop [OF a1 a2 a3 st(1,2) loc(1) refl refl,
      where canonURL = moved_url and proxied = ?prox and second = moved_again_response]
  have r1: "issued (snd ?f2) (snd (ai_path_origin ?e demo_request (snd ?f1))) = [?again]"
    and r2: "fst (ai_path_origin ?e demo_request (snd ?f1)) = net_fetch ?e (fetched (snd ?f2)) ?again"
    and r3: "ai_path ?e demo_request (log_visit ?e demo_context demo_request start) =
       ai_path_respond ?e demo_request alt_document moved_again_response
         (snd (ai_path_origin ?e demo_request (snd ?f1)))"
    using a a4 a5 a6 by blast+

  let ?e = empty_location_env
  let ?f1 = "ai_path_fragment ?e demo_request (log_visit ?e demo_context demo_request start)"
  let ?f2 = "fetchWithHost ?e ?o (req_url demo_request) demo_request True False True (snd ?f1)"
  have b1: "reaches_ai_path ?e demo_request" by code_simp
  have "fst ?f1 = Inr []" by code_simp
  then have b2: "?f1 = (Inr [], snd ?f1)" by (simp add: prod_eq_iff)
  have "fst ?f2 = Inr empty_location_response" by code_simp
  then have b3: "?f2 = (Inr empty_location_response, snd ?f2)" by (simp add: prod_eq_iff)
  note b = one_redirect_hop [OF b1 b2 b3 st(3,4) loc(2) refl refl]
  have r4: "ai_path_origin ?e demo_request (snd ?f1) = (Inr empty_location_response, snd ?f2)"
    using b by blast

  let ?e = unresolved_env
  let ?f1 = "ai_path_fragment ?e demo_request (log_visit ?e demo_context demo_request start)"
  let ?f2 = "fetchWithHost ?e ?o (req_url demo_request) demo_request True False True (snd ?f1)"
  have c1: "reaches_ai_path ?e demo_request" by code_simp
  have "fst ?f1 = Inr []" by code_simp
  then have c2: "?f1 = (Inr [], snd ?f1)" by (simp add: prod_eq_iff)
  have "fst ?f2 = Inr moved_response" by code_simp
  then have c3: "?f2 = (Inr moved_response, snd ?f2)" by (simp add: prod_eq_iff)
  have c4: "new_URL_base ?e ''/q'' ?o = Inl TypeError"
    by (simp add: unresolved_env_def)
  have c5: "net_fetch ?e h r = Inr moved_response" for h r
    by (simp add: unresolved_env_def)
  note c = one_redirect_hop [OF c1 c2 c3 st(1,2) loc(1) refl refl, where err = TypeError]
  have r5: "ai_path_origin ?e demo_request (snd ?f1) = (Inl TypeError, ?log ''/q'' (snd ?f2))"
    and r6: "fst (handler ?e demo_context demo_request start) =
             net_fetch ?e (fetched (snd ?f2)) (of_request demo_request)"
    using c c4 by blast+

  let ?e = untargetable_env
  let ?f1 = "ai_path_fragment ?e demo_request (log_visit ?e demo_context demo_request start)"
  let ?f2 = "fetchWithHost ?e ?o (req_url demo_request) demo_request True False True (snd ?f1)"
  have d1: "reaches_ai_path ?e demo_request" by code_simp
  have "fst ?f1 = Inr []" by code_simp
  then have d2: "?f1 = (Inr [], snd ?f1)" by (simp add: prod_eq_iff)
  have "fst ?f2 = Inr moved_response" by code_simp
  then have d3: "?f2 = (Inr moved_response, snd ?f2)" by (simp add: prod_eq_iff)
  have d4: "new_URL_base ?e ''/q'' ?o = Inr moved_url"
    by (simp add: untargetable_env_def)
  have d5: "new_URL ?e (url_origin moved_url @ url_pathname moved_url @ url_search moved_url) =
            Inl TypeError"
    by (simp add: untargetable_env_def moved_url_def demo_url_def)
  have d6: "net_fetch ?e h r = Inr moved_response" for h r
    by (simp add: untargetable_env_def)
  note d = one_redirect_hop [OF d1 d2 d3 st(1,2) loc(1) refl refl,
      where canonURL = moved_url and err = TypeError]
  have r7: "ai_path_origin ?e demo_request (snd ?f1) = (Inl TypeError, ?log ''/q'' (snd ?f2))"
    and r8: "fst (handler ?e demo_context demo_request start) =
             net_fetch ?e (fetched (snd ?f2)) (of_request demo_request)"
    using d d4 d5 by blast+
  show ?thesis
    using r1 r2 r3 r4 r5 r6 r7 r8 a6 c5 d6 st(5) by simp
qed

section \<open>The content injector\<close>

lemma getSubstitution_plain:
  "\<not> has_replacement_pattern t \<Longrightarrow> getSubstitution m b a t = t"
  by (induction m b a t rule: getSubstitution.induct) auto

lemma has_replacement_pattern_append_tag:
  "has_replacement_pattern (frag @ ''</body>'') = has_replacement_pattern frag"
  by (induction frag rule: has_replacement_pattern.induct) auto

lemma map_upper_eq_iff:
  "map toUpperCase_char a = map toUpperCase_char b \<longleftrightarrow>
   map toLowerCase_char a = map toLowerCase_char b"
proof (induction a arbitrary: b)
  case Nil
  show ?case by simp
next
  case (Cons x a)
  show ?case using Cons.IH by (cases b) (auto simp: upper_eq_iff_lower_eq)
qed

lemma prefix_short:
  assumes "prefix p (x @ y)" and "length p \<le> length x"
  shows "prefix p x"
  using assms by (metis prefix_length_prefix prefixI)

lemma re_search_lits_first:
  assumes "map (canonicalize ic) m = map (canonicalize ic) p"
    and "\<not> str_includes (map (canonicalize ic) (pre @ butlast m)) (map (canonicalize ic) p)"
  shows "re_search ic (lits p) acc (pre @ m @ rest) = Some (acc @ pre, m, rest, Map.empty)"
  using assms(2)
proof (induction pre arbitrary: acc)
  case Nil
  have len: "length m = length p" using assms(1) by (metis length_map)
  have mne: "m \<noteq> []"
  proof
    assume "m = []"
    with len have "p = []" by simp
    with Nil \<open>m = []\<close> show False by simp
  qed
  have pre: "prefix (map (canonicalize ic) p) (map (canonicalize ic) (m @ rest))"
    using assms(1) by (simp add: prefix_def)
  obtain c cs where cs: "m @ rest = c # cs" using mne by (cases m) auto
  have "re_exec_at ic (lits p) (m @ rest) = Some (m, rest, Map.empty)"
    using pre len by (simp add: re_exec_at_lits)
  then show ?case using cs by simp
next
  case (Cons c pre)
  have len: "length m = length p" using assms(1) by (metis length_map)
  have mne: "m \<noteq> []"
  proof
    assume "m = []"
    with len have "p = []" by simp
    with Cons.prems show False by simp
  qed
  have np: "\<not> prefix (map (canonicalize ic) p) (map (canonicalize ic) (c # pre @ butlast m))"
    and ni: "\<not> str_includes (map (canonicalize ic) (pre @ butlast m)) (map (canonicalize ic) p)"
    using Cons.prems by simp_all
  have split: "c # pre @ m @ rest = (c # pre @ butlast m) @ (last m # rest)"
    using mne by simp
  have "\<not> prefix (map (canonicalize ic) p) (map (canonicalize ic) (c # pre @ m @ rest))"
  proof
    assume a: "prefix (map (canonicalize ic) p) (map (canonicalize ic) (c # pre @ m @ rest))"
    have "prefix (map (canonicalize ic) p)
            (map (canonicalize ic) (c # pre @ butlast m) @ map (canonicalize ic) (last m # rest))"
      using a split by (metis map_append)
    moreover have "length (map (canonicalize ic) p) \<le> length (map (canonicalize ic) (c # pre @ butlast m))"
      using len mne by simp
    ultimately have "prefix (map (canonicalize ic) p) (map (canonicalize ic) (c # pre @ butlast m))"
      by (rule prefix_short)
    with np show False by simp
  qed
  then have "re_exec_at ic (lits p) (c # pre @ m @ rest) = None"
    by (simp add: re_exec_at_lits)
  then show ?case using Cons.IH [OF ni, of "acc @ [c]"] by simp
qed

lemma injectHTML_no_tag:
  assumes "\<not> ci_includes base ''</body>''"
  shows "injectHTML base frag = base @ frag"
  using assms by (simp only: injectHTML_def bodyCloseRegex_def re_test_lits if_False)

lemma injectHTML_first_tag:
  assumes "\<not> has_replacement_pattern frag"
    and "toLowerCase tag = ''</body>''"
    and "\<not> ci_includes (pre @ butlast tag) ''</body>''"
  shows "injectHTML (pre @ tag @ post) frag = pre @ frag @ ''</body>'' @ post"
proof -
  have low: "map toLowerCase_char ''</body>'' = ''</body>''"
    by (simp add: toLowerCase_char_def)
  have m: "map (canonicalize True) tag = map (canonicalize True) ''</body>''"
    using assms(2) unfolding canonicalize_True map_upper_eq_iff toLowerCase_def low .
  have n: "\<not> str_includes (map (canonicalize True) (pre @ butlast tag))
              (map (canonicalize True) ''</body>'')"
    using assms(3) unfolding canonicalize_True str_includes_upper_lower ci_includes_def toLowerCase_def .
  have s: "re_search True (lits ''</body>'') [] (pre @ tag @ post) =
           Some (pre, tag, post, Map.empty)"
    using re_search_lits_first [OF m n, of "[]" post] by simp
  have d: "\<not> has_replacement_pattern (frag @ ''</body>'')"
    using assms(1) has_replacement_pattern_append_tag [of frag] by blast
  show ?thesis
    unfolding injectHTML_def bodyCloseRegex_def re_test_def re_replace_def s
    by (simp add: getSubstitution_plain [OF d])
qed

lemma injectHTML_examples:
  "injectHTML ''x</BODY>y'' ''F'' = ''xF</body>y''"
  "injectHTML ''x</body>y'' ''$&'' = ''x</body></body>y''"
  "injectHTML ''x</body>y'' ''<b>$$</b>'' = ''x<b>$</b></body>y''"
  "injectHTML ''x</body>y'' [CHR ''$'', CHR 0x60] = ''xx</body>y''"
  "injectHTML ''x</body>y'' [CHR ''$'', CHR 0x27] = ''xy</body>y''"
  "injectHTML ''x</body>y'' ''<b>$5.00</b>$'' = ''x<b>$5.00</b>$</body>y''"
  by code_simp+

text \<open>
  C4, as the specification states it, fails in two ways. The closing tag that is found
  is written back in lower case, so a document that closes its body with
  \<^verbatim>\<open></BODY>\<close> does not keep its other text as it was; and the fragment is used as
  a replacement pattern, so a fragment that holds \<^verbatim>\<open>$&\<close> or \<^verbatim>\<open>$$\<close> is not
  inserted as it is.
\<close>

theorem injectHTML_changes_other_text:
  "injectHTML ''x</BODY>y'' ''F'' \<noteq> ''xF</BODY>y'' \<and>
   injectHTML ''x</body>y'' ''$&'' \<noteq> ''x$&</body>y'' \<and>
   injectHTML ''x</body>y'' ''<b>$$</b>'' \<noteq> ''x<b>$$</b></body>y''"
  by code_simp

text \<open>
  C4, amended. A document without a closing body tag, whatever the case of its letters,
  gets the fragment appended at its end, character for character. In a document with
  one, a fragment in which no dollar sign is followed by a dollar sign, an ampersand, a
  backquote or a quote is put, character for character, immediately before the first
  such tag, the tag is written as \<^verbatim>\<open></body>\<close> in lower case, and the text before
  and after the tag is left as it is. Every other dollar sign of a fragment is inserted
  as it is. (What becomes of a fragment with one of the four patterns is left open here:
  the source passes the fragment as the replacement pattern of \<^verbatim>\<open>replace\<close>.)
\<close>

theorem injectHTML_before_first_body_close:
  "(\<not> ci_includes base ''</body>'' \<longrightarrow> injectHTML base frag = base @ frag) \<and>
   (\<not> has_replacement_pattern frag \<and> toLowerCase tag = ''</body>'' \<and>
    \<not> ci_includes (pre @ butlast tag) ''</body>'' \<longrightarrow>
      injectHTML (pre @ tag @ post) frag = pre @ frag @ ''</body>'' @ post)"
  using injectHTML_no_tag injectHTML_first_tag by blast

theorem injectHTML_before_first_body_close_witness:
  "\<not> ci_includes ''<p>X</p>'' ''</body>'' \<and>
   injectHTML ''<p>X</p>'' ''<div>F</div>'' = ''<p>X</p><div>F</div>'' \<and>
   \<not> has_replacement_pattern ''<b>$5.00</b>$'' \<and> toLowerCase ''</BODY>'' = ''</body>'' \<and>
   \<not> ci_includes (''<html><body><p>X</p>'' @ butlast ''</BODY>'') ''</body>'' \<and>
   injectHTML ''<html><body><p>X</p></BODY></html>'' ''<b>$5.00</b>$'' =
     ''<html><body><p>X</p><b>$5.00</b>$</body></html>''"
proof -
  have a: "\<not> ci_includes ''<p>X</p>'' ''</body>''" by code_simp
  have b: "\<not> has_replacement_pattern ''<b>$5.00</b>$''" by code_simp
  have c: "toLowerCase ''</BODY>'' = ''</body>''" by code_simp
  have d: "\<not> ci_includes (''<html><body><p>X</p>'' @ butlast ''</BODY>'') ''</body>''"
    by code_simp
  note t = injectHTML_before_first_body_close
  from t [of "''<p>X</p>''" "''<div>F</div>''"] a
  have e: "injectHTML ''<p>X</p>'' ''<div>F</div>'' = ''<p>X</p>'' @ ''<div>F</div>''"
    by blast
  from t [of _ "''<b>$5.00</b>$''" "''</BODY>''" "''<html><body><p>X</p>''" "''</html>''"] b c d
  have f: "injectHTML (''<html><body><p>X</p>'' @ ''</BODY>'' @ ''</html>'') ''<b>$5.00</b>$'' =
     ''<html><body><p>X</p>'' @ ''<b>$5.00</b>$'' @ ''</body>'' @ ''</html>''"
    by blast
  show ?thesis using a b c d e f by simp
qed

end
